theory Spec2Isabelle
  imports Main "HOL-Library.Sublist" "HOL-Library.Mapping" "HOL-Library.AList_Mapping"
begin

section \<open>Runner-label replacement in workflow files\<close>

text \<open>
  A shallow embedding of \<^verbatim>\<open>remediation/workflow/runnerlabel/runnerlabel.go\<close>.
  Go strings are byte sequences, modelled as \<open>string\<close> (a list of 8-bit characters);
  Go's \<^verbatim>\<open>int\<close> line and column numbers are modelled as \<open>int\<close>, with the 64-bit
  wrap-around of the subtraction the code performs on them written out.
  A run-time panic of the Go program (an index or a slice bound out of range) is the
  \<open>Inl\<close> branch of the result.
\<close>

subsection \<open>The position-annotated document tree (\<^verbatim>\<open>yaml.Node\<close>)\<close>

datatype Kind = DocumentNode | SequenceNode | MappingNode | ScalarNode | AliasNode

text \<open>The fields of \<^verbatim>\<open>yaml.Node\<close> that the program reads. Positions are 1-based.\<close>

datatype Node =
  Node (Kind: Kind) (Tag: string) (Value: string) (Content: "Node list")
       (Line: int) (Column: int)

subsection \<open>Replacement descriptors and run-time failures\<close>

record RunnerLabelMapping =
  jobName :: string
  oldLabel :: string
  newLabel :: string
  lineNum :: int
  columnNum :: int
  isArray :: bool
  arrayIndex :: int

datatype panic = IndexOutOfRange | SliceBoundsOutOfRange

text \<open>The error value built by \<^verbatim>\<open>fmt.Errorf\<close>, carrying its message.\<close>

datatype error = Error string

text \<open>Go's \<^verbatim>\<open>int\<close> is 64 bits wide and signed; arithmetic wraps.\<close>

definition int64 :: "int \<Rightarrow> int" where
  "int64 x = (x + 2 ^ 63) mod 2 ^ 64 - 2 ^ 63"

subsection \<open>The functions of Go's \<^verbatim>\<open>strings\<close> package that the patcher calls\<close>

text \<open>
  \<^verbatim>\<open>strings.Index(s, substr)\<close>: the index of the first instance of \<open>substr\<close> in
  \<open>s\<close>; Go's result \<open>-1\<close> (not present) is \<open>None\<close>.
\<close>

fun Index :: "string \<Rightarrow> string \<Rightarrow> nat option" where
  "Index [] substr = (if substr = [] then Some 0 else None)"
| "Index (c # s) substr =
     (if prefix substr (c # s) then Some 0 else map_option Suc (Index s substr))"

text \<open>
  \<^verbatim>\<open>strings.Replace(s, old, new, 1)\<close>, the only way the program calls it. Go returns
  \<open>s\<close> itself when \<open>old = new\<close> or when \<open>old\<close> does not occur; otherwise it
  copies \<open>s\<close> up to the first instance, then \<open>new\<close>, then the rest of \<open>s\<close> after
  the instance. An empty \<open>old\<close> matches at the beginning of the string.
\<close>

definition Replace :: "string \<Rightarrow> string \<Rightarrow> string \<Rightarrow> string" where
  "Replace s old new =
     (if old = new then s
      else case Index s old of
             None \<Rightarrow> s
           | Some j \<Rightarrow> take j s @ new @ drop (j + length old) s)"

text \<open>
  \<^verbatim>\<open>strings.Split(s, sep)\<close> for a separator of one byte, which is how the program
  calls it (\<open>sep\<close> is the newline character): the pieces of \<open>s\<close> between the
  separators, of which there is always at least one.
\<close>

function Split :: "string \<Rightarrow> char \<Rightarrow> string list" where
  "Split s sep =
     (case Index s [sep] of
        None \<Rightarrow> [s]
      | Some m \<Rightarrow> take m s # Split (drop (m + 1) s) sep)"
  by pat_completeness auto
termination
proof (relation "measure (\<lambda>(s, sep). length s)")
  show "wf (measure (\<lambda>(s, sep). length s))" by simp
next
  fix s :: string and sep :: char and m :: nat
  assume found: "Index s [sep] = Some m"
  have "Index t [sep] = Some k \<Longrightarrow> k < length t" for t k
  proof (induction t arbitrary: k)
    case Nil
    then show ?case by simp
  next
    case (Cons c t)
    then show ?case by (cases "c = sep") auto
  qed
  from this [OF found] have "m < length s" .
  then show "((drop (m + 1) s, sep), (s, sep)) \<in> measure (\<lambda>(s, sep). length s)" by simp
qed

declare Split.simps [simp del]

text \<open>\<^verbatim>\<open>strings.Join(elems, sep)\<close>, again for a separator of one byte.\<close>

fun Join :: "string list \<Rightarrow> char \<Rightarrow> string" where
  "Join [] sep = []"
| "Join [e] sep = e"
| "Join (e # es) sep = e @ sep # Join es sep"

abbreviation newline :: char where
  "newline \<equiv> CHR 0x0A"

subsection \<open>The structural locator\<close>

text \<open>
  \<^verbatim>\<open>findRunsOnNode\<close> walks the children of a job node two at a time and returns the
  child after the first key whose value is \<open>runs-on\<close>; a trailing key without a
  value is passed over.
\<close>

fun findRunsOnContent :: "Node list \<Rightarrow> Node option" where
  "findRunsOnContent (keyNode # valueNode # rest) =
     (if Value keyNode = ''runs-on'' then Some valueNode else findRunsOnContent rest)"
| "findRunsOnContent _ = None"

definition findRunsOnNode :: "Node \<Rightarrow> Node option" where
  "findRunsOnNode jobNode = findRunsOnContent (Content jobNode)"

text \<open>
  The \<^verbatim>\<open>range\<close> loop over the elements of a sequence-valued \<open>runs-on\<close>, with the
  running element index.
\<close>

fun sequenceReplacements ::
  "(string, string) mapping \<Rightarrow> string \<Rightarrow> int \<Rightarrow> Node list \<Rightarrow> RunnerLabelMapping list" where
  "sequenceReplacements labelMap jobName' idx [] = []"
| "sequenceReplacements labelMap jobName' idx (labelNode # rest) =
     (case Mapping.lookup labelMap (Value labelNode) of
        Some newLabel' \<Rightarrow>
          [\<lparr>jobName = jobName', oldLabel = Value labelNode, newLabel = newLabel',
            lineNum = int64 (Line labelNode - 1), columnNum = int64 (Column labelNode - 1),
            isArray = True, arrayIndex = idx\<rparr>]
      | None \<Rightarrow> [])
     @ sequenceReplacements labelMap jobName' (idx + 1) rest"

text \<open>The body of the loop over the jobs: the descriptors one job contributes.\<close>

definition jobReplacements ::
  "(string, string) mapping \<Rightarrow> Node \<Rightarrow> Node \<Rightarrow> RunnerLabelMapping list" where
  "jobReplacements labelMap jobNameNode jobNode =
     (case findRunsOnNode jobNode of
        None \<Rightarrow> []
      | Some runsOnNode \<Rightarrow>
          (case Kind runsOnNode of
             ScalarNode \<Rightarrow>
               (case Mapping.lookup labelMap (Value runsOnNode) of
                  Some newLabel' \<Rightarrow>
                    [\<lparr>jobName = Value jobNameNode, oldLabel = Value runsOnNode,
                      newLabel = newLabel',
                      lineNum = int64 (Line runsOnNode - 1),
                      columnNum = int64 (Column runsOnNode - 1),
                      isArray = False, arrayIndex = 0\<rparr>]
                | None \<Rightarrow> [])
           | SequenceNode \<Rightarrow>
               sequenceReplacements labelMap (Value jobNameNode) 0 (Content runsOnNode)
           | _ \<Rightarrow> []))"

text \<open>
  The loop over \<^verbatim>\<open>jobsNode.Content\<close>, two children at a time, appending to the
  descriptors collected so far. Reading \<^verbatim>\<open>Content[i+1]\<close> past the end panics.
\<close>

fun collectReplacements ::
  "(string, string) mapping \<Rightarrow> Node list \<Rightarrow> RunnerLabelMapping list
     \<Rightarrow> panic + RunnerLabelMapping list" where
  "collectReplacements labelMap [] replacements = Inr replacements"
| "collectReplacements labelMap [jobNameNode] replacements = Inl IndexOutOfRange"
| "collectReplacements labelMap (jobNameNode # jobNode # rest) replacements =
     collectReplacements labelMap rest
       (replacements @ jobReplacements labelMap jobNameNode jobNode)"

subsection \<open>The text patcher\<close>

text \<open>
  One pass of the loop over the descriptors, on the line array and the \<open>updated\<close>
  flag. The line index is only compared with the length of the array; a negative index
  panics at the read, a column outside the line panics at the slice.
\<close>

definition applyReplacement ::
  "RunnerLabelMapping \<Rightarrow> string list \<times> bool \<Rightarrow> panic + string list \<times> bool" where
  "applyReplacement r st =
     (case st of (inputLines, updated) \<Rightarrow>
        if lineNum r \<ge> int (length inputLines) then Inr (inputLines, updated)
        else if lineNum r < 0 then Inl IndexOutOfRange
        else
          let oldLine = inputLines ! nat (lineNum r) in
          if columnNum r < 0 \<or> columnNum r > int (length oldLine) then Inl SliceBoundsOutOfRange
          else
            let prefix = take (nat (columnNum r)) oldLine;
                oldLineAfterColumn = drop (nat (columnNum r)) oldLine;
                newLineAfterColumn = Replace oldLineAfterColumn (oldLabel r) (newLabel r)
            in Inr (inputLines[nat (lineNum r) := prefix @ newLineAfterColumn], True))"

fun applyReplacements ::
  "RunnerLabelMapping list \<Rightarrow> string list \<times> bool \<Rightarrow> panic + string list \<times> bool" where
  "applyReplacements [] st = Inr st"
| "applyReplacements (r # rs) st =
     (case applyReplacement r st of
        Inl p \<Rightarrow> Inl p
      | Inr st' \<Rightarrow> applyReplacements rs st')"

subsection \<open>The operation\<close>

text \<open>
  \<^verbatim>\<open>ReplaceRunnerLabels\<close>. The YAML parser (\<^verbatim>\<open>yaml.Unmarshal\<close> of the library
  \<^verbatim>\<open>gopkg.in/yaml.v3\<close>) and the tree search \<^verbatim>\<open>permissions.IterateNode\<close> are not
  part of the file; they are the parameters \<open>unmarshal\<close> (a parse error message, or the
  root of the tree) and \<open>iterateNode\<close> (the node found, if any), so that every theorem
  below holds whatever they compute. The Go triple \<^verbatim>\<open>(string, bool, error)\<close> is the
  \<open>Inr\<close> branch, with \<open>None\<close> for a \<^verbatim>\<open>nil\<close> error.
\<close>

definition ReplaceRunnerLabels ::
  "(string \<Rightarrow> string + Node) \<Rightarrow> (Node \<Rightarrow> string \<Rightarrow> string \<Rightarrow> int \<Rightarrow> Node option)
     \<Rightarrow> string \<Rightarrow> (string, string) mapping \<Rightarrow> panic + string \<times> bool \<times> error option" where
  "ReplaceRunnerLabels unmarshal iterateNode inputYaml labelMap =
     (if Mapping.is_empty labelMap then Inr (inputYaml, False, None)
      else case unmarshal inputYaml of
        Inl err \<Rightarrow> Inr ('''', False, Some (Error (''unable to parse yaml: '' @ err)))
      | Inr t \<Rightarrow>
          (case iterateNode t ''jobs'' ''!!map'' 0 of
             None \<Rightarrow> Inr (inputYaml, False, None)
           | Some jobsNode \<Rightarrow>
               (case collectReplacements labelMap (Content jobsNode) [] of
                  Inl p \<Rightarrow> Inl p
                | Inr replacements \<Rightarrow>
                    if length replacements = 0 then Inr (inputYaml, False, None)
                    else
                      (case applyReplacements replacements (Split inputYaml newline, False) of
                         Inl p \<Rightarrow> Inl p
                       | Inr (inputLines, updated) \<Rightarrow>
                           Inr (Join inputLines newline, updated, None)))))"

text \<open>
  The descriptors the locator hands to the patcher in a call (the value of the variable
  \<^verbatim>\<open>replacements\<close> when the patching loop starts); none when the call returns
  before that point.
\<close>

definition emittedReplacements ::
  "(string \<Rightarrow> string + Node) \<Rightarrow> (Node \<Rightarrow> string \<Rightarrow> string \<Rightarrow> int \<Rightarrow> Node option)
     \<Rightarrow> string \<Rightarrow> (string, string) mapping \<Rightarrow> RunnerLabelMapping list" where
  "emittedReplacements unmarshal iterateNode inputYaml labelMap =
     (if Mapping.is_empty labelMap then []
      else case unmarshal inputYaml of
        Inl err \<Rightarrow> []
      | Inr t \<Rightarrow>
          (case iterateNode t ''jobs'' ''!!map'' 0 of
             None \<Rightarrow> []
           | Some jobsNode \<Rightarrow>
               (case collectReplacements labelMap (Content jobsNode) [] of
                  Inl p \<Rightarrow> []
                | Inr replacements \<Rightarrow> replacements)))"

subsection \<open>Notions used to state the properties\<close>

text \<open>\<open>old\<close> occurs in \<open>s\<close> at offset \<open>k\<close>.\<close>

definition occursAt :: "string \<Rightarrow> string \<Rightarrow> nat \<Rightarrow> bool" where
  "occursAt old s k \<longleftrightarrow> k + length old \<le> length s \<and> take (length old) (drop k s) = old"

text \<open>
  \<open>s'\<close> is \<open>s\<close> with exactly the first occurrence of \<open>old\<close>, if there is one,
  replaced by \<open>new\<close>.
\<close>

definition replacesFirst :: "string \<Rightarrow> string \<Rightarrow> string \<Rightarrow> string \<Rightarrow> bool" where
  "replacesFirst s old new s' \<longleftrightarrow>
     (if \<exists>k\<in>{..length s}. occursAt old s k
      then \<exists>k\<in>{..length s}. occursAt old s k \<and> (\<forall>j\<in>{..<k}. \<not> occursAt old s j) \<and>
             s' = take k s @ new @ drop (k + length old) s
      else s' = s)"

text \<open>
  A descriptor points into the line array: its line index selects a line and its column
  lies within that line.
\<close>

definition inRange :: "string list \<Rightarrow> RunnerLabelMapping \<Rightarrow> bool" where
  "inRange inputLines r \<longleftrightarrow>
     0 \<le> lineNum r \<and> lineNum r < int (length inputLines) \<and>
     0 \<le> columnNum r \<and> columnNum r \<le> int (length (inputLines ! nat (lineNum r)))"

text \<open>
  A node carries a position as a parser reports it: 1-based, within Go's \<^verbatim>\<open>int\<close>.
\<close>

definition positioned :: "Node \<Rightarrow> bool" where
  "positioned n \<longleftrightarrow> 1 \<le> Line n \<and> Line n < 2 ^ 63 \<and> 1 \<le> Column n \<and> Column n < 2 ^ 63"

text \<open>The key/value pairs held in the children of a mapping node.\<close>

fun entries :: "Node list \<Rightarrow> (Node \<times> Node) list" where
  "entries (k # v # rest) = (k, v) # entries rest"
| "entries _ = []"

text \<open>
  A job contributes nothing: it has no \<open>runs-on\<close> field, or the field is neither a
  scalar nor a sequence, or none of its labels is a key of the label map.
\<close>

definition jobIsNoop :: "(string, string) mapping \<Rightarrow> Node \<Rightarrow> bool" where
  "jobIsNoop labelMap jobNode \<longleftrightarrow>
     (case findRunsOnNode jobNode of
        None \<Rightarrow> True
      | Some runsOnNode \<Rightarrow>
          (case Kind runsOnNode of
             ScalarNode \<Rightarrow> Mapping.lookup labelMap (Value runsOnNode) = None
           | SequenceNode \<Rightarrow>
               (\<forall>labelNode\<in>set (Content runsOnNode).
                  Mapping.lookup labelMap (Value labelNode) = None)
           | _ \<Rightarrow> True))"

text \<open>
  The labels written in the \<open>runs-on\<close> fields of the jobs under a jobs node, in
  document order.
\<close>

definition jobLabels :: "Node \<Rightarrow> string list" where
  "jobLabels jobNode =
     (case findRunsOnNode jobNode of
        None \<Rightarrow> []
      | Some runsOnNode \<Rightarrow>
          (case Kind runsOnNode of
             ScalarNode \<Rightarrow> [Value runsOnNode]
           | SequenceNode \<Rightarrow> map Value (Content runsOnNode)
           | _ \<Rightarrow> []))"






subsection \<open>Concrete documents and the trees a YAML parser builds for them\<close>

text \<open>
  Modelled from the spec: \<^verbatim>\<open>permissions.IterateNode\<close> lives in another package of the
  repository and is not part of the file. The spec says of the call
  \<^verbatim>\<open>IterateNode(&t, "jobs", "!!map", 0)\<close>: locate the top-level mapping entry whose key
  equals the reserved identifier for jobs; if absent, there is nothing to do. Below, the
  scan of the entries of a mapping for a key, with the tag asked of its value.
\<close>

fun lookupEntry :: "string \<Rightarrow> string \<Rightarrow> Node list \<Rightarrow> Node option" where
  "lookupEntry key tag (k # v # rest) =
     (if Value k = key \<and> Tag v = tag then Some v else lookupEntry key tag rest)"
| "lookupEntry key tag _ = None"

text \<open>
  Modelled from the spec: the search itself, in the top-level mapping of the document
  (the only child of the document node). The theorems take the search as a parameter;
  this definition instantiates it on the concrete documents below.
\<close>

definition IterateNode :: "Node \<Rightarrow> string \<Rightarrow> string \<Rightarrow> int \<Rightarrow> Node option" where
  "IterateNode root key tag minLine =
     (case Content root of
        [topNode] \<Rightarrow> lookupEntry key tag (Content topNode)
      | _ \<Rightarrow> None)"

text \<open>A parser given by the finite table of the documents it is asked about.\<close>

definition parserOf :: "(string \<times> Node) list \<Rightarrow> string \<Rightarrow> string + Node" where
  "parserOf table inputYaml =
     (case map_of table inputYaml of
        Some t \<Rightarrow> Inr t
      | None \<Rightarrow> Inl ''yaml: did not find expected node content'')"

definition strNode :: "string \<Rightarrow> int \<Rightarrow> int \<Rightarrow> Node" where
  "strNode v l c = Node ScalarNode ''!!str'' v [] l c"

definition mappingNode :: "Node list \<Rightarrow> int \<Rightarrow> int \<Rightarrow> Node" where
  "mappingNode kvs l c = Node MappingNode ''!!map'' [] kvs l c"

definition sequenceNode :: "Node list \<Rightarrow> int \<Rightarrow> int \<Rightarrow> Node" where
  "sequenceNode es l c = Node SequenceNode ''!!seq'' [] es l c"

text \<open>The tree of a document whose first line is \<open>jobs:\<close>, given its jobs node.\<close>

definition jobsTree :: "Node \<Rightarrow> Node" where
  "jobsTree jobsNode =
     Node DocumentNode [] [] [mappingNode [strNode ''jobs'' 1 1, jobsNode] 1 1] 1 1"

text \<open>
  A workflow with one job whose \<open>runs-on\<close> is a single label, written after the key
  on line 3 from column 14 on, followed by an empty list of steps; \<open>br\<close> is the
  line-break character.
\<close>

definition scalarDoc :: "char \<Rightarrow> string \<Rightarrow> string" where
  "scalarDoc br label =
     ''jobs:'' @ br # ''  test:'' @ br # ''    runs-on: '' @ label @
     br # ''    steps: []'' @ [br]"

definition scalarJobs :: "string \<Rightarrow> Node" where
  "scalarJobs label =
     mappingNode [strNode ''test'' 2 3,
       mappingNode [strNode ''runs-on'' 3 5, strNode label 3 14,
                    strNode ''steps'' 4 5, sequenceNode [] 4 12] 3 5] 2 3"

text \<open>The same job with the inline sequence \<open>[ubuntu-latest, windows-latest]\<close>.\<close>

definition sequenceDoc :: string where
  "sequenceDoc =
     ''jobs:'' @ newline # ''  test:'' @ newline #
     ''    runs-on: [ubuntu-latest, windows-latest]'' @ [newline]"

definition sequenceJobs :: Node where
  "sequenceJobs =
     mappingNode [strNode ''test'' 2 3,
       mappingNode [strNode ''runs-on'' 3 5,
         sequenceNode [strNode ''ubuntu-latest'' 3 15, strNode ''windows-latest'' 3 30] 3 14]
         3 5] 2 3"

definition sequenceDocPatched :: string where
  "sequenceDocPatched =
     ''jobs:'' @ newline # ''  test:'' @ newline #
     ''    runs-on: [step-ubuntu-24, step-windows]'' @ [newline]"

text \<open>
  A workflow without jobs; and one with four jobs: one that runs in a container only,
  one whose \<open>runs-on\<close> is a mapping, and two whose labels are not in the label map.
\<close>

definition noJobsDoc :: string where
  "noJobsDoc = ''name: Test Workflow'' @ newline # ''on: [push]'' @ [newline]"

definition noJobsTree :: Node where
  "noJobsTree =
     Node DocumentNode [] []
       [mappingNode [strNode ''name'' 1 1, strNode ''Test Workflow'' 1 7,
          strNode ''on'' 2 1, sequenceNode [strNode ''push'' 2 6] 2 5] 1 1] 1 1"

definition mixedDoc :: string where
  "mixedDoc =
     ''jobs:'' @ newline #
     ''  a:'' @ newline # ''    container: ubuntu:latest'' @ newline #
     ''  b:'' @ newline # ''    runs-on:'' @ newline # ''      group: large'' @ newline #
     ''  c:'' @ newline # ''    runs-on: macos-latest'' @ newline #
     ''  d:'' @ newline # ''    runs-on: [self-hosted, linux]'' @ [newline]"

definition mixedJobs :: Node where
  "mixedJobs =
     mappingNode [
       strNode ''a'' 2 3,
         mappingNode [strNode ''container'' 3 5, strNode ''ubuntu:latest'' 3 16] 3 5,
       strNode ''b'' 4 3,
         mappingNode [strNode ''runs-on'' 5 5,
           mappingNode [strNode ''group'' 6 7, strNode ''large'' 6 14] 6 7] 5 5,
       strNode ''c'' 7 3,
         mappingNode [strNode ''runs-on'' 8 5, strNode ''macos-latest'' 8 14] 8 5,
       strNode ''d'' 9 3,
         mappingNode [strNode ''runs-on'' 10 5,
           sequenceNode [strNode ''self-hosted'' 10 15, strNode ''linux'' 10 28] 10 14]
           10 5] 2 3"

text \<open>Label maps.\<close>

definition ubuntuMap :: "(string, string) mapping" where
  "ubuntuMap = Mapping.update ''ubuntu-latest'' ''step-ubuntu-24'' Mapping.empty"

definition ubuntuWindowsMap :: "(string, string) mapping" where
  "ubuntuWindowsMap =
     Mapping.update ''ubuntu-latest'' ''step-ubuntu-24''
       (Mapping.update ''windows-latest'' ''step-windows'' Mapping.empty)"

definition chainMap :: "(string, string) mapping" where
  "chainMap =
     Mapping.update ''ubuntu-latest'' ''ubuntu-24.04''
       (Mapping.update ''ubuntu-24.04'' ''step-ubuntu-24'' Mapping.empty)"

definition identityMap :: "(string, string) mapping" where
  "identityMap = Mapping.update ''ubuntu-latest'' ''ubuntu-latest'' Mapping.empty"

definition twoLineMap :: "(string, string) mapping" where
  "twoLineMap =
     Mapping.update ''ubuntu-latest'' (''step'' @ newline # ''ubuntu'') Mapping.empty"

text \<open>A parser that knows the single-label workflow for the labels used below.\<close>

definition scalarParser :: "char \<Rightarrow> string \<Rightarrow> string + Node" where
  "scalarParser br =
     parserOf (map (\<lambda>label. (scalarDoc br label, jobsTree (scalarJobs label)))
       [''ubuntu-latest'', ''ubuntu-24.04'', ''step-ubuntu-24''])"

text \<open>The output of the single-label workflow when the new label spans two lines.\<close>

definition twoLineOutput :: string where
  "twoLineOutput =
     ''jobs:'' @ newline # ''  test:'' @ newline # ''    runs-on: step'' @ newline #
     ''ubuntu'' @ newline # ''    steps: []'' @ [newline]"

text \<open>
  Two descriptors: one for a job that is named like the label it runs on, and the second
  descriptor of the sequence \<open>[ubuntu-latest, w]\<close> once the first has shortened the line.
\<close>

definition keyNamedLikeLabel :: RunnerLabelMapping where
  "keyNamedLikeLabel =
     \<lparr>jobName = ''ubuntu-latest'', oldLabel = ''ubuntu-latest'', newLabel = ''step-ubuntu-24'',
      lineNum = 1, columnNum = 27, isArray = False, arrayIndex = 0\<rparr>"

definition staleColumn :: RunnerLabelMapping where
  "staleColumn =
     \<lparr>jobName = ''test'', oldLabel = ''w'', newLabel = ''x'',
      lineNum = 2, columnNum = 29, isArray = True, arrayIndex = 1\<rparr>"

text \<open>The workflow that second descriptor comes from, and its label map.\<close>

definition shrinkDoc :: string where
  "shrinkDoc =
     ''jobs:'' @ newline # ''  test:'' @ newline # ''    runs-on: [ubuntu-latest, w]'' @ [newline]"

definition shrinkJobs :: Node where
  "shrinkJobs =
     mappingNode [strNode ''test'' 2 3,
       mappingNode [strNode ''runs-on'' 3 5,
         sequenceNode [strNode ''ubuntu-latest'' 3 15, strNode ''w'' 3 30] 3 14] 3 5] 2 3"

definition shrinkMap :: "(string, string) mapping" where
  "shrinkMap = Mapping.update ''ubuntu-latest'' ''u'' (Mapping.update ''w'' ''x'' Mapping.empty)"

text \<open>
  A workflow with three jobs, each with a single label on a line of its own, and a parser
  that knows it before and after relabelling.
\<close>

definition threeJobsDoc :: "string \<Rightarrow> string \<Rightarrow> string \<Rightarrow> string" where
  "threeJobsDoc l1 l2 l3 =
     ''jobs:'' @ newline #
     ''  build:'' @ newline # ''    runs-on: '' @ l1 @ newline #
     ''  test:'' @ newline # ''    runs-on: '' @ l2 @ newline #
     ''  docs:'' @ newline # ''    runs-on: '' @ l3 @ [newline]"

definition threeJobs :: "string \<Rightarrow> string \<Rightarrow> string \<Rightarrow> Node" where
  "threeJobs l1 l2 l3 =
     mappingNode [
       strNode ''build'' 2 3, mappingNode [strNode ''runs-on'' 3 5, strNode l1 3 14] 3 5,
       strNode ''test'' 4 3, mappingNode [strNode ''runs-on'' 5 5, strNode l2 5 14] 5 5,
       strNode ''docs'' 6 3, mappingNode [strNode ''runs-on'' 7 5, strNode l3 7 14] 7 5] 2 3"

definition threeJobsParser :: "string \<Rightarrow> string + Node" where
  "threeJobsParser =
     parserOf [(threeJobsDoc ''ubuntu-latest'' ''windows-latest'' ''macos-latest'',
                jobsTree (threeJobs ''ubuntu-latest'' ''windows-latest'' ''macos-latest'')),
               (threeJobsDoc ''step-ubuntu-24'' ''step-windows'' ''macos-latest'',
                jobsTree (threeJobs ''step-ubuntu-24'' ''step-windows'' ''macos-latest''))]"

text \<open>
  The workflow of one job with the inline sequence \<open>[a, b]\<close>, and a parser that knows
  it for the labels used below.
\<close>

definition pairDoc :: "string \<Rightarrow> string \<Rightarrow> string" where
  "pairDoc a b =
     ''jobs:'' @ newline # ''  test:'' @ newline #
     ''    runs-on: ['' @ a @ '', '' @ b @ '']'' @ [newline]"

definition pairJobs :: "string \<Rightarrow> string \<Rightarrow> Node" where
  "pairJobs a b =
     mappingNode [strNode ''test'' 2 3,
       mappingNode [strNode ''runs-on'' 3 5,
         sequenceNode [strNode a 3 15, strNode b 3 (17 + int (length a))] 3 14] 3 5] 2 3"

definition pairParser :: "string \<Rightarrow> string + Node" where
  "pairParser =
     parserOf [(pairDoc ''windows-latest'' ''ubuntu-latest'',
                jobsTree (pairJobs ''windows-latest'' ''ubuntu-latest'')),
               (pairDoc ''step-windows'' ''ubuntu-latest'',
                jobsTree (pairJobs ''step-windows'' ''ubuntu-latest''))]"

text \<open>
  A workflow written in flow style on one line: a job with a single label, then the job
  with the inline sequence; and that line with only the first label replaced.
\<close>

definition flowDoc :: string where
  "flowDoc =
     ''jobs: {a: {runs-on: windows-latest}, b: {runs-on: [ubuntu-latest, windows-latest]}}'' @
     [newline]"

definition flowJobs :: Node where
  "flowJobs =
     mappingNode [
       strNode ''a'' 1 8,
         mappingNode [strNode ''runs-on'' 1 12, strNode ''windows-latest'' 1 21] 1 11,
       strNode ''b'' 1 38,
         mappingNode [strNode ''runs-on'' 1 42,
           sequenceNode [strNode ''ubuntu-latest'' 1 52, strNode ''windows-latest'' 1 67] 1 51]
           1 41] 1 7"

definition flowOutput :: string where
  "flowOutput =
     ''jobs: {a: {runs-on: step-windows}, b: {runs-on: [ubuntu-latest, windows-latest]}}'' @
     [newline]"

section \<open>Properties of the string functions\<close>

lemma Index_bound: "Index s substr = Some m \<Longrightarrow> m + length substr \<le> length s"
proof (induction s arbitrary: m)
  case Nil
  then show ?case by (simp split: if_splits)
next
  case (Cons c s)
  show ?case
  proof (cases "prefix substr (c # s)")
    case True
    with Cons.prems have "m = 0" by simp
    with prefix_length_le [OF True] show ?thesis by simp
  next
    case False
    with Cons.prems obtain k where "Index s substr = Some k" "m = Suc k" by auto
    with Cons.IH show ?thesis by fastforce
  qed
qed

lemma Index_Some_prefix: "Index s substr = Some m \<Longrightarrow> prefix substr (drop m s)"
proof (induction s arbitrary: m)
  case Nil
  then show ?case by (simp split: if_splits)
next
  case (Cons c s)
  show ?case
  proof (cases "prefix substr (c # s)")
    case True
    with Cons.prems show ?thesis by simp
  next
    case False
    with Cons.prems obtain k where "Index s substr = Some k" "m = Suc k" by auto
    with Cons.IH show ?thesis by simp
  qed
qed

lemma Index_Some_first: "Index s substr = Some m \<Longrightarrow> k < m \<Longrightarrow> \<not> prefix substr (drop k s)"
proof (induction s arbitrary: m k)
  case Nil
  then show ?case by (simp split: if_splits)
next
  case (Cons c s)
  show ?case
  proof (cases "prefix substr (c # s)")
    case True
    with Cons.prems show ?thesis by simp
  next
    case False
    with Cons.prems obtain j where j: "Index s substr = Some j" "m = Suc j" by auto
    show ?thesis
    proof (cases k)
      case 0
      with False show ?thesis by simp
    next
      case (Suc k')
      with Cons.prems j have "k' < j" by simp
      from Cons.IH [OF j(1) this] Suc show ?thesis by simp
    qed
  qed
qed

lemma Index_None: "Index s substr = None \<Longrightarrow> \<not> prefix substr (drop k s)"
proof (induction s arbitrary: k)
  case Nil
  then show ?case by (simp split: if_splits)
next
  case (Cons c s)
  from Cons.prems have np: "\<not> prefix substr (c # s)" and tl: "Index s substr = None"
    by (auto split: if_splits)
  show ?case
  proof (cases k)
    case 0
    with np show ?thesis by simp
  next
    case (Suc k')
    with Cons.IH [OF tl] show ?thesis by simp
  qed
qed

lemma Index_Some_split:
  "Index s substr = Some m \<Longrightarrow> s = take m s @ substr @ drop (m + length substr) s"
proof -
  assume a: "Index s substr = Some m"
  from Index_Some_prefix [OF a] obtain zs where zs: "drop m s = substr @ zs"
    by (auto simp: prefix_def)
  then have "drop (length substr) (drop m s) = zs" by simp
  then have "drop (m + length substr) s = zs" by (simp add: add.commute)
  with zs have "substr @ drop (m + length substr) s = drop m s" by simp
  then show ?thesis by (metis append_take_drop_id)
qed

lemma Join_Cons: "es \<noteq> [] \<Longrightarrow> Join (e # es) sep = e @ sep # Join es sep"
  by (cases es) simp_all

lemma Split_not_Nil: "Split s sep \<noteq> []"
  by (subst Split.simps) (simp split: option.splits)

lemma Join_Split: "Join (Split s sep) sep = s"
proof (induction s sep rule: Split.induct)
  case (1 s sep)
  show ?case
  proof (cases "Index s [sep]")
    case None
    then show ?thesis by (subst Split.simps) simp
  next
    case (Some m)
    from Index_Some_split [OF Some] have s: "s = take m s @ sep # drop (m + 1) s" by simp
    have "Join (Split s sep) sep = take m s @ sep # Join (Split (drop (m + 1) s) sep) sep"
      using Some by (subst Split.simps) (simp add: Join_Cons Split_not_Nil)
    also have "\<dots> = take m s @ sep # drop (m + 1) s" using "1.IH" [OF Some] by simp
    finally show ?thesis using s by simp
  qed
qed

lemma Index_char_notin: "sep \<notin> set l \<Longrightarrow> Index (l @ sep # rest) [sep] = Some (length l)"
  by (induction l) auto

lemma Index_char_None: "sep \<notin> set l \<Longrightarrow> Index l [sep] = None"
  by (induction l) auto

lemma Index_char_None_iff: "Index l [sep] = None \<longleftrightarrow> sep \<notin> set l"
  by (induction l) auto

lemma Split_Join:
  "ls \<noteq> [] \<Longrightarrow> \<forall>l\<in>set ls. sep \<notin> set l \<Longrightarrow> Split (Join ls sep) sep = ls"
proof (induction ls)
  case Nil
  then show ?case by simp
next
  case (Cons l ls)
  show ?case
  proof (cases ls)
    case Nil
    with Cons.prems show ?thesis by (subst Split.simps) (simp add: Index_char_None)
  next
    case (Cons l' ls')
    with Cons.prems Cons.IH have IH: "Split (Join ls sep) sep = ls" by simp
    from Cons.prems have nl: "sep \<notin> set l" by simp
    have "Join (l # ls) sep = l @ sep # Join ls sep" using Cons by simp
    then show ?thesis using IH nl by (subst Split.simps) (simp add: Index_char_notin)
  qed
qed

lemma Split_lines_no_sep: "l \<in> set (Split s sep) \<Longrightarrow> sep \<notin> set l"
proof (induction s sep arbitrary: l rule: Split.induct)
  case (1 s sep)
  show ?case
  proof (cases "Index s [sep]")
    case None
    with "1.prems" have "l = s" by (subst (asm) Split.simps) simp
    with None show ?thesis by (simp add: Index_char_None_iff)
  next
    case (Some m)
    with "1.prems" have "l = take m s \<or> l \<in> set (Split (drop (m + 1) s) sep)"
      by (subst (asm) Split.simps) simp
    then show ?thesis
    proof
      assume l: "l = take m s"
      show ?thesis
      proof
        assume "sep \<in> set l"
        then obtain k where k: "k < length l" "l ! k = sep" by (auto simp: in_set_conv_nth)
        with l have km: "k < m" "k < length s" "s ! k = sep" by auto
        then have "prefix [sep] (drop k s)" by (simp add: Cons_nth_drop_Suc [symmetric])
        with Index_Some_first [OF Some km(1)] show False by simp
      qed
    next
      assume "l \<in> set (Split (drop (m + 1) s) sep)"
      with "1.IH" [OF Some] show ?thesis by simp
    qed
  qed
qed

lemma Replace_set: "set (Replace s old new) \<subseteq> set s \<union> set new"
proof -
  have "set (take j s) \<subseteq> set s" "set (drop k s) \<subseteq> set s" for j k
    by (auto dest: in_set_takeD in_set_dropD)
  then show ?thesis by (auto simp: Replace_def split: option.splits)
qed

section \<open>Properties of the text patcher\<close>

lemma occursAt_prefix: "occursAt old s k \<longleftrightarrow> k \<le> length s \<and> prefix old (drop k s)"
proof
  assume a: "occursAt old s k"
  then have "take (length old) (drop k s) = old" "k + length old \<le> length s"
    by (auto simp: occursAt_def)
  then show "k \<le> length s \<and> prefix old (drop k s)"
    by (metis add_leD1 take_is_prefix)
next
  assume a: "k \<le> length s \<and> prefix old (drop k s)"
  then obtain zs where zs: "drop k s = old @ zs" by (auto simp: prefix_def)
  then have "length old \<le> length (drop k s)" by simp
  with a have "k + length old \<le> length s" by auto
  with zs show "occursAt old s k" by (simp add: occursAt_def)
qed

lemma Replace_replacesFirst: "replacesFirst s old new (Replace s old new)"
proof (cases "Index s old")
  case None
  then have "\<not> occursAt old s k" for k
    using Index_None [of s old k] by (simp add: occursAt_prefix)
  with None show ?thesis by (simp add: replacesFirst_def Replace_def)
next
  case (Some m)
  have occ: "occursAt old s m"
    using Index_Some_prefix [OF Some] Index_bound [OF Some] by (simp add: occursAt_prefix)
  have first: "\<not> occursAt old s j" if "j < m" for j
    using Index_Some_first [OF Some that] by (simp add: occursAt_prefix)
  have m: "m \<le> length s" using Index_bound [OF Some] by simp
  have res: "Replace s old new = take m s @ new @ drop (m + length old) s"
  proof (cases "old = new")
    case True
    with Index_Some_split [OF Some] show ?thesis by (simp add: Replace_def)
  next
    case False
    with Some show ?thesis by (simp add: Replace_def)
  qed
  from occ m have ex: "\<exists>k\<in>{..length s}. occursAt old s k" by auto
  from occ first m res
  have "\<exists>k\<in>{..length s}. occursAt old s k \<and> (\<forall>j\<in>{..<k}. \<not> occursAt old s j) \<and>
          Replace s old new = take k s @ new @ drop (k + length old) s"
    by (intro bexI [of _ m]) auto
  with ex show ?thesis by (simp add: replacesFirst_def)
qed

lemma applyReplacement_inRange:
  "inRange inputLines r \<Longrightarrow>
   applyReplacement r (inputLines, updated) =
     Inr (inputLines[nat (lineNum r) :=
            take (nat (columnNum r)) (inputLines ! nat (lineNum r)) @
            Replace (drop (nat (columnNum r)) (inputLines ! nat (lineNum r)))
              (oldLabel r) (newLabel r)], True)"
  by (simp add: inRange_def applyReplacement_def Let_def)

lemma applyReplacement_skip:
  "int (length inputLines) \<le> lineNum r \<Longrightarrow>
   applyReplacement r (inputLines, updated) = Inr (inputLines, updated)"
  by (simp add: applyReplacement_def)

text \<open>The comparison with the length does not catch a negative line index.\<close>

lemma negative_line_index_panics:
  "lineNum r < 0 \<Longrightarrow> applyReplacement r (inputLines, updated) = Inl IndexOutOfRange"
  by (simp add: applyReplacement_def)

lemma applyReplacement_frame:
  assumes "applyReplacement r (inputLines, updated) = Inr (newLines, updated')"
  shows "length newLines = length inputLines"
    and "i \<noteq> nat (lineNum r) \<Longrightarrow> newLines ! i = inputLines ! i"
    and "int (length inputLines) \<le> lineNum r \<Longrightarrow> newLines = inputLines"
  using assms by (auto simp: applyReplacement_def Let_def split: if_splits)

lemma applyReplacement_line_index:
  assumes "applyReplacement r (inputLines, updated) = Inr (newLines, updated')"
      and "newLines ! i \<noteq> inputLines ! i"
  shows "lineNum r = int i"
proof -
  from assms have "lineNum r < int (length inputLines)" "0 \<le> lineNum r"
    by (auto simp: applyReplacement_def Let_def split: if_splits)
  moreover from assms applyReplacement_frame(2) [OF assms(1), of i] have "i = nat (lineNum r)"
    by auto
  ultimately show ?thesis by simp
qed

lemma applyReplacements_frame:
  assumes "applyReplacements rs (inputLines, updated) = Inr (newLines, updated')"
  shows "length newLines = length inputLines \<and>
         (\<forall>i. int i \<notin> lineNum ` set rs \<longrightarrow> newLines ! i = inputLines ! i)"
  using assms
proof (induction rs arbitrary: inputLines updated)
  case Nil
  then show ?case by simp
next
  case (Cons r rs)
  from Cons.prems obtain midLines midUpdated where
    step: "applyReplacement r (inputLines, updated) = Inr (midLines, midUpdated)" and
    rest: "applyReplacements rs (midLines, midUpdated) = Inr (newLines, updated')"
    by (auto split: sum.splits)
  from Cons.IH [OF rest] have
    len: "length newLines = length midLines" and
    same: "\<And>i. int i \<notin> lineNum ` set rs \<Longrightarrow> newLines ! i = midLines ! i" by auto
  show ?case
  proof (intro conjI allI impI)
    show "length newLines = length inputLines"
      using len applyReplacement_frame(1) [OF step] by simp
  next
    fix i assume i: "int i \<notin> lineNum ` set (r # rs)"
    then have "newLines ! i = midLines ! i" using same by auto
    moreover have "midLines ! i = inputLines ! i"
      using applyReplacement_line_index [OF step, of i] i by auto
    ultimately show "newLines ! i = inputLines ! i" by simp
  qed
qed

lemma applyReplacements_skip:
  "\<forall>r\<in>set rs. int (length inputLines) \<le> lineNum r \<Longrightarrow>
   applyReplacements rs (inputLines, updated) = Inr (inputLines, updated)"
  by (induction rs) (auto simp: applyReplacement_skip)

lemma applyReplacement_no_sep:
  assumes "applyReplacement r (inputLines, updated) = Inr (newLines, updated')"
      and "\<forall>l\<in>set inputLines. sep \<notin> set l" and "sep \<notin> set (newLabel r)"
  shows "\<forall>l\<in>set newLines. sep \<notin> set l"
proof (cases "int (length inputLines) \<le> lineNum r")
  case True
  with assms applyReplacement_frame(3) [OF assms(1)] show ?thesis by simp
next
  case False
  with assms(1) have rng: "inRange inputLines r"
    by (auto simp: applyReplacement_def inRange_def Let_def split: if_splits)
  let ?n = "nat (lineNum r)" and ?c = "nat (columnNum r)"
  let ?line = "inputLines ! ?n"
  let ?new = "take ?c ?line @ Replace (drop ?c ?line) (oldLabel r) (newLabel r)"
  from rng have n: "?n < length inputLines" by (auto simp: inRange_def)
  with assms(2) have line: "sep \<notin> set ?line" by simp
  have "set ?new \<subseteq> set ?line \<union> set (newLabel r)"
    using Replace_set [of "drop ?c ?line" "oldLabel r" "newLabel r"]
    by (auto dest: in_set_takeD in_set_dropD)
  with line assms(3) have new: "sep \<notin> set ?new" by blast
  from assms(1) applyReplacement_inRange [OF rng, of updated]
  have "newLines = inputLines[?n := ?new]" by simp
  with assms(2) new show ?thesis by (auto dest!: set_update_subset_insert [THEN subsetD])
qed

lemma applyReplacements_no_sep:
  assumes "applyReplacements rs (inputLines, updated) = Inr (newLines, updated')"
      and "\<forall>l\<in>set inputLines. sep \<notin> set l" and "\<forall>r\<in>set rs. sep \<notin> set (newLabel r)"
  shows "\<forall>l\<in>set newLines. sep \<notin> set l"
  using assms
proof (induction rs arbitrary: inputLines updated)
  case Nil
  then show ?case by simp
next
  case (Cons r rs)
  from Cons.prems(1) obtain midLines midUpdated where
    step: "applyReplacement r (inputLines, updated) = Inr (midLines, midUpdated)" and
    rest: "applyReplacements rs (midLines, midUpdated) = Inr (newLines, updated')"
    by (auto split: sum.splits)
  from applyReplacement_no_sep [OF step Cons.prems(2)] Cons.prems(3)
  have "\<forall>l\<in>set midLines. sep \<notin> set l" by simp
  from Cons.IH [OF rest this] Cons.prems(3) show ?case by simp
qed

text \<open>The two descriptors of the inline sequence, applied to its line.\<close>

lemma sequence_patch:
  assumes line: "inputLines ! n = p @ ''[ubuntu-latest, windows-latest]'' @ q"
      and n: "n < length inputLines"
  shows "applyReplacements
           [\<lparr>jobName = j, oldLabel = ''ubuntu-latest'', newLabel = ''step-ubuntu-24'',
             lineNum = int n, columnNum = int (length p) + 1, isArray = True, arrayIndex = 0\<rparr>,
            \<lparr>jobName = j, oldLabel = ''windows-latest'', newLabel = ''step-windows'',
             lineNum = int n, columnNum = int (length p) + 16, isArray = True, arrayIndex = 1\<rparr>]
           (inputLines, False) =
         Inr (inputLines[n := p @ ''[step-ubuntu-24, step-windows]'' @ q], True)"
proof -
  let ?r1 = "\<lparr>jobName = j, oldLabel = ''ubuntu-latest'', newLabel = ''step-ubuntu-24'',
             lineNum = int n, columnNum = int (length p) + 1, isArray = True, arrayIndex = 0\<rparr>"
  let ?r2 = "\<lparr>jobName = j, oldLabel = ''windows-latest'', newLabel = ''step-windows'',
             lineNum = int n, columnNum = int (length p) + 16, isArray = True, arrayIndex = 1\<rparr>"
  let ?mid = "inputLines[n := p @ ''[step-ubuntu-24, windows-latest]'' @ q]"
  have c1: "nat (int (length p) + 1) = length p + 1" by simp
  have c2: "nat (int (length p) + 16) = length p + 16" by simp
  have step1: "applyReplacement ?r1 (inputLines, False) = Inr (?mid, True)"
    using line n by (simp add: applyReplacement_def Replace_def c1 del: of_nat_add)
  have mid: "?mid ! n = p @ ''[step-ubuntu-24, windows-latest]'' @ q" using n by simp
  have step2: "applyReplacement ?r2 (?mid, True) =
      Inr (inputLines[n := p @ ''[step-ubuntu-24, step-windows]'' @ q], True)"
    using mid n by (simp add: applyReplacement_def Replace_def c2 del: of_nat_add)
  from step1 step2 show ?thesis by simp
qed




section \<open>Properties of the structural locator\<close>

text \<open>\<^verbatim>\<open>findRunsOnNode\<close> returns the value of the first entry whose key is \<open>runs-on\<close>.\<close>

lemma findRunsOnNode_entries:
  "findRunsOnNode jobNode =
     map_of (map (\<lambda>(k, v). (Value k, v)) (entries (Content jobNode))) ''runs-on''"
proof -
  have "findRunsOnContent content =
          map_of (map (\<lambda>(k, v). (Value k, v)) (entries content)) ''runs-on''" for content
    by (induction content rule: entries.induct) simp_all
  then show ?thesis by (simp add: findRunsOnNode_def)
qed

lemma collectReplacements_acc:
  "collectReplacements labelMap content acc =
     (case collectReplacements labelMap content [] of
        Inl p \<Rightarrow> Inl p
      | Inr rs \<Rightarrow> Inr (acc @ rs))"
proof (induction content arbitrary: acc rule: entries.induct)
  case (1 k v rest)
  let ?job = "jobReplacements labelMap k v"
  have "collectReplacements labelMap (k # v # rest) acc =
          collectReplacements labelMap rest (acc @ ?job)" by simp
  also have "\<dots> = (case collectReplacements labelMap rest [] of
                      Inl p \<Rightarrow> Inl p | Inr rs \<Rightarrow> Inr ((acc @ ?job) @ rs))"
    by (rule "1.IH")
  finally have lhs: "collectReplacements labelMap (k # v # rest) acc =
      (case collectReplacements labelMap rest [] of
         Inl p \<Rightarrow> Inl p | Inr rs \<Rightarrow> Inr ((acc @ ?job) @ rs))" .
  have "collectReplacements labelMap (k # v # rest) [] =
          collectReplacements labelMap rest ?job" by simp
  also have "\<dots> = (case collectReplacements labelMap rest [] of
                      Inl p \<Rightarrow> Inl p | Inr rs \<Rightarrow> Inr (?job @ rs))"
    by (rule "1.IH")
  finally show ?case using lhs by (simp split: sum.splits)
qed simp_all

lemma sequenceReplacements_labels:
  "map oldLabel (sequenceReplacements labelMap name idx nodes) =
     filter (\<lambda>l. Mapping.lookup labelMap l \<noteq> None) (map Value nodes)"
  by (induction nodes arbitrary: idx) (auto split: option.splits)

lemma sequenceReplacements_lookup:
  "r \<in> set (sequenceReplacements labelMap name idx nodes) \<Longrightarrow>
   Mapping.lookup labelMap (oldLabel r) = Some (newLabel r)"
  by (induction nodes arbitrary: idx) (auto split: option.splits)

lemma jobReplacements_labels:
  "map oldLabel (jobReplacements labelMap jobNameNode jobNode) =
     filter (\<lambda>l. Mapping.lookup labelMap l \<noteq> None) (jobLabels jobNode)"
  by (auto simp: jobReplacements_def jobLabels_def sequenceReplacements_labels
      split: option.splits Kind.splits)

lemma jobReplacements_lookup:
  assumes "r \<in> set (jobReplacements labelMap jobNameNode jobNode)"
  shows "Mapping.lookup labelMap (oldLabel r) = Some (newLabel r)"
proof (cases "findRunsOnNode jobNode")
  case None
  with assms show ?thesis by (simp add: jobReplacements_def)
next
  case (Some runsOnNode)
  show ?thesis
  proof (cases "Kind runsOnNode")
    case ScalarNode
    with assms Some show ?thesis
      by (cases "Mapping.lookup labelMap (Value runsOnNode)") (auto simp: jobReplacements_def)
  next
    case SequenceNode
    with assms Some show ?thesis
      by (auto simp: jobReplacements_def dest: sequenceReplacements_lookup)
  qed (use assms Some in \<open>simp_all add: jobReplacements_def\<close>)
qed

lemma jobIsNoop_labels:
  "jobIsNoop labelMap jobNode \<longleftrightarrow>
     (\<forall>l\<in>set (jobLabels jobNode). Mapping.lookup labelMap l = None)"
  by (auto simp: jobIsNoop_def jobLabels_def split: option.splits Kind.splits)

lemma jobIsNoop_jobReplacements:
  "jobIsNoop labelMap jobNode \<Longrightarrow> jobReplacements labelMap jobNameNode jobNode = []"
proof -
  assume "jobIsNoop labelMap jobNode"
  then have "filter (\<lambda>l. Mapping.lookup labelMap l \<noteq> None) (jobLabels jobNode) = []"
    by (auto simp: jobIsNoop_labels filter_empty_conv)
  then have "map oldLabel (jobReplacements labelMap jobNameNode jobNode) = []"
    by (simp add: jobReplacements_labels)
  then show ?thesis by simp
qed

lemma collectReplacements_noop:
  "even (length content) \<Longrightarrow> \<forall>(k, jobNode)\<in>set (entries content). jobIsNoop labelMap jobNode \<Longrightarrow>
   collectReplacements labelMap content acc = Inr acc"
  by (induction labelMap content acc rule: collectReplacements.induct)
     (auto simp: jobIsNoop_jobReplacements)

lemma collectReplacements_lookup:
  "collectReplacements labelMap content acc = Inr rs \<Longrightarrow> r \<in> set rs \<Longrightarrow>
   r \<in> set acc \<or> Mapping.lookup labelMap (oldLabel r) = Some (newLabel r)"
  by (induction labelMap content acc rule: collectReplacements.induct)
     (auto dest: jobReplacements_lookup)

lemma emittedReplacements_cases:
  "emittedReplacements unmarshal iterateNode inputYaml labelMap = [] \<or>
   (\<exists>t jobsNode. \<not> Mapping.is_empty labelMap \<and> unmarshal inputYaml = Inr t \<and>
      iterateNode t ''jobs'' ''!!map'' 0 = Some jobsNode \<and>
      collectReplacements labelMap (Content jobsNode) [] =
        Inr (emittedReplacements unmarshal iterateNode inputYaml labelMap))"
proof (cases "Mapping.is_empty labelMap")
  case True
  then show ?thesis by (simp add: emittedReplacements_def)
next
  case nonempty: False
  show ?thesis
  proof (cases "unmarshal inputYaml")
    case (Inl err)
    with nonempty show ?thesis by (simp add: emittedReplacements_def)
  next
    case (Inr t)
    show ?thesis
    proof (cases "iterateNode t ''jobs'' ''!!map'' 0")
      case None
      with nonempty Inr show ?thesis by (simp add: emittedReplacements_def)
    next
      case (Some jobsNode)
      with nonempty Inr show ?thesis
        by (cases "collectReplacements labelMap (Content jobsNode) []")
           (simp_all add: emittedReplacements_def)
    qed
  qed
qed

lemma emittedReplacements_lookup:
  assumes "r \<in> set (emittedReplacements unmarshal iterateNode inputYaml labelMap)"
  shows "Mapping.lookup labelMap (oldLabel r) = Some (newLabel r)"
proof -
  from assms emittedReplacements_cases [of unmarshal iterateNode inputYaml labelMap]
  obtain jobsNode where "collectReplacements labelMap (Content jobsNode) [] =
      Inr (emittedReplacements unmarshal iterateNode inputYaml labelMap)" by auto
  from collectReplacements_lookup [OF this assms] show ?thesis by simp
qed

lemma collectReplacements_append:
  "even (length before) \<Longrightarrow>
   collectReplacements labelMap (before @ rest) acc =
     (case collectReplacements labelMap before acc of
        Inl p \<Rightarrow> Inl p
      | Inr acc' \<Rightarrow> collectReplacements labelMap rest acc')"
  by (induction labelMap before acc rule: collectReplacements.induct) simp_all

lemma int64_id: "0 \<le> x \<Longrightarrow> x < 2 ^ 63 \<Longrightarrow> int64 x = x"
  by (simp add: int64_def)

lemma lookup_Some_not_empty: "Mapping.lookup labelMap k = Some v \<Longrightarrow> \<not> Mapping.is_empty labelMap"
  by (auto simp: Mapping.is_empty_def keys_dom_lookup)

text \<open>
  Positions reported by a parser give line indices and columns that are not negative, so
  that an index outside the line array is one at or beyond its length.
\<close>

lemma sequenceReplacements_nonneg:
  assumes "\<forall>labelNode\<in>set nodes. positioned labelNode"
      and "r \<in> set (sequenceReplacements labelMap name idx nodes)"
  shows "0 \<le> lineNum r \<and> 0 \<le> columnNum r"
  using assms
  by (induction nodes arbitrary: idx)
     (auto simp: positioned_def int64_id split: option.splits)

lemma jobReplacements_nonneg:
  assumes "findRunsOnNode jobNode = Some runsOnNode"
      and "positioned runsOnNode" and "\<forall>labelNode\<in>set (Content runsOnNode). positioned labelNode"
      and "r \<in> set (jobReplacements labelMap jobNameNode jobNode)"
  shows "0 \<le> lineNum r \<and> 0 \<le> columnNum r"
proof (cases "Kind runsOnNode")
  case ScalarNode
  with assms show ?thesis
    by (cases "Mapping.lookup labelMap (Value runsOnNode)")
       (auto simp: jobReplacements_def positioned_def int64_id)
next
  case SequenceNode
  with assms(1,4) have "r \<in> set (sequenceReplacements labelMap (Value jobNameNode) 0 (Content runsOnNode))"
    by (simp add: jobReplacements_def)
  with assms(3) show ?thesis by (rule sequenceReplacements_nonneg)
qed (use assms in \<open>simp_all add: jobReplacements_def\<close>)


section \<open>Properties of the operation\<close>

text \<open>The operation in terms of the descriptors it emits.\<close>

lemma ReplaceRunnerLabels_no_descriptors:
  assumes "\<not> Mapping.is_empty labelMap" and "unmarshal inputYaml = Inr t"
      and "iterateNode t ''jobs'' ''!!map'' 0 = None \<or>
           (\<exists>jobsNode. iterateNode t ''jobs'' ''!!map'' 0 = Some jobsNode \<and>
              collectReplacements labelMap (Content jobsNode) [] = Inr [])"
  shows "ReplaceRunnerLabels unmarshal iterateNode inputYaml labelMap = Inr (inputYaml, False, None)"
  using assms by (auto simp: ReplaceRunnerLabels_def)

lemma ReplaceRunnerLabels_patch:
  assumes "emittedReplacements unmarshal iterateNode inputYaml labelMap \<noteq> []"
  shows "ReplaceRunnerLabels unmarshal iterateNode inputYaml labelMap =
           (case applyReplacements (emittedReplacements unmarshal iterateNode inputYaml labelMap)
                   (Split inputYaml newline, False) of
              Inl p \<Rightarrow> Inl p
            | Inr (inputLines, updated) \<Rightarrow> Inr (Join inputLines newline, updated, None))"
  using assms
  by (auto simp: ReplaceRunnerLabels_def emittedReplacements_def
      split: if_splits sum.splits option.splits)

lemma ReplaceRunnerLabels_unpatched:
  assumes "emittedReplacements unmarshal iterateNode inputYaml labelMap = []"
      and "ReplaceRunnerLabels unmarshal iterateNode inputYaml labelMap = Inr (output, changed, None)"
  shows "output = inputYaml \<and> \<not> changed"
  using assms
  by (auto simp: ReplaceRunnerLabels_def emittedReplacements_def
      split: if_splits sum.splits option.splits)

lemma Replace_same:
  "old = new \<or> Index s old = None \<Longrightarrow> Replace s old new = s"
  by (auto simp: Replace_def)

lemma applyReplacement_identity:
  assumes "inRange inputLines r"
      and "oldLabel r = newLabel r \<or>
           Index (drop (nat (columnNum r)) (inputLines ! nat (lineNum r))) (oldLabel r) = None"
  shows "applyReplacement r (inputLines, updated) = Inr (inputLines, True)"
  using assms by (simp add: applyReplacement_inRange Replace_same)

lemma applyReplacements_identity:
  assumes "rs \<noteq> []"
      and "\<forall>r\<in>set rs. inRange inputLines r \<and>
             (oldLabel r = newLabel r \<or>
              Index (drop (nat (columnNum r)) (inputLines ! nat (lineNum r))) (oldLabel r) = None)"
  shows "applyReplacements rs (inputLines, updated) = Inr (inputLines, True)"
  using assms
proof (induction rs arbitrary: updated)
  case Nil
  then show ?case by simp
next
  case (Cons r rs)
  then have step: "applyReplacement r (inputLines, updated) = Inr (inputLines, True)"
    by (simp add: applyReplacement_identity)
  show ?case
  proof (cases rs)
    case Nil
    with step show ?thesis by simp
  next
    case (Cons r' rs')
    with Cons.IH [of True] Cons.prems have "applyReplacements rs (inputLines, True) = Inr (inputLines, True)"
      by simp
    with step show ?thesis by simp
  qed
qed

lemma applyReplacement_updated:
  assumes "applyReplacement r (inputLines, updated) = Inr (newLines, updated')"
  shows "updated' \<longleftrightarrow> updated \<or> (0 \<le> lineNum r \<and> lineNum r < int (length inputLines))"
  using assms by (auto simp: applyReplacement_def Let_def split: if_splits)

lemma applyReplacements_updated:
  assumes "applyReplacements rs (inputLines, updated) = Inr (newLines, updated')"
  shows "updated' \<longleftrightarrow>
           updated \<or> (\<exists>r\<in>set rs. 0 \<le> lineNum r \<and> lineNum r < int (length inputLines))"
  using assms
proof (induction rs arbitrary: inputLines updated)
  case Nil
  then show ?case by simp
next
  case (Cons r rs)
  from Cons.prems obtain midLines midUpdated where
    step: "applyReplacement r (inputLines, updated) = Inr (midLines, midUpdated)" and
    rest: "applyReplacements rs (midLines, midUpdated) = Inr (newLines, updated')"
    by (auto split: sum.splits)
  from applyReplacement_frame(1) [OF step] have len: "length midLines = length inputLines" .
  from Cons.IH [OF rest] applyReplacement_updated [OF step] len show ?case by auto
qed

lemma ReplaceRunnerLabels_patched:
  assumes "emittedReplacements unmarshal iterateNode inputYaml labelMap \<noteq> []"
      and "ReplaceRunnerLabels unmarshal iterateNode inputYaml labelMap = Inr (output, changed, err)"
  shows "\<exists>newLines.
           applyReplacements (emittedReplacements unmarshal iterateNode inputYaml labelMap)
             (Split inputYaml newline, False) = Inr (newLines, changed) \<and>
           output = Join newLines newline \<and> err = None"
  using assms(2) unfolding ReplaceRunnerLabels_patch [OF assms(1)]
  by (auto split: sum.splits)


section \<open>Evaluation on concrete documents\<close>

lemmas tree_defs =
  parserOf_def scalarParser_def IterateNode_def jobsTree_def scalarJobs_def sequenceJobs_def
  mixedJobs_def noJobsTree_def shrinkJobs_def strNode_def mappingNode_def sequenceNode_def
  threeJobs_def threeJobsParser_def pairJobs_def pairParser_def flowJobs_def

lemmas doc_defs = scalarDoc_def sequenceDoc_def sequenceDocPatched_def noJobsDoc_def mixedDoc_def
  shrinkDoc_def twoLineOutput_def threeJobsDoc_def pairDoc_def flowDoc_def flowOutput_def

lemmas map_defs =
  ubuntuMap_def ubuntuWindowsMap_def chainMap_def identityMap_def twoLineMap_def shrinkMap_def
  Mapping.lookup_update'

lemmas run_defs =
  ReplaceRunnerLabels_def emittedReplacements_def jobReplacements_def findRunsOnNode_def
  int64_def applyReplacement_def Replace_def Split.simps

text \<open>
  The column precondition of C9 is not established by the locator: the columns it records
  are those of the original text, and an earlier replacement on the same line may have
  shortened the line. Here the operation ends in a panic.
\<close>

lemma stale_column_panics:
  "ReplaceRunnerLabels (parserOf [(shrinkDoc, jobsTree shrinkJobs)]) IterateNode shrinkDoc shrinkMap =
     Inl SliceBoundsOutOfRange"
  by (simp add: run_defs tree_defs doc_defs map_defs)

text \<open>
  The inline sequence \<open>[ubuntu-latest, windows-latest]\<close> when the other jobs contribute
  nothing: the parser reports the two elements on the line that reads \<open>p
  [ubuntu-latest, windows-latest] q\<close>, at the columns where they stand. One descriptor
  is emitted per element, in element order, and the operation returns the text in which
  that line reads \<open>p [step-ubuntu-24, step-windows] q\<close>, and changed. The second
  column is one off after the first replacement, and the label is still found.
\<close>

lemma sequence_alone_replaced:
  assumes map1: "Mapping.lookup labelMap ''ubuntu-latest'' = Some ''step-ubuntu-24''"
      and map2: "Mapping.lookup labelMap ''windows-latest'' = Some ''step-windows''"
      and parse: "unmarshal inputYaml = Inr t"
      and found: "iterateNode t ''jobs'' ''!!map'' 0 = Some jobsNode"
      and jobs: "Content jobsNode = before @ jobNameNode # jobNode # after"
      and before: "even (length before)"
        "\<forall>(otherName, other)\<in>set (entries before). jobIsNoop labelMap other"
      and after: "even (length after)"
        "\<forall>(otherName, other)\<in>set (entries after). jobIsNoop labelMap other"
      and runsOn: "findRunsOnNode jobNode = Some runsOnNode" "Kind runsOnNode = SequenceNode"
        "Content runsOnNode = [first, second]"
      and first: "Value first = ''ubuntu-latest''" "Line first = int n + 1"
        "Column first = int (length p) + 2"
      and second: "Value second = ''windows-latest''" "Line second = int n + 1"
        "Column second = int (length p) + 17"
      and line: "n < length (Split inputYaml newline)"
        "Split inputYaml newline ! n = p @ ''[ubuntu-latest, windows-latest]'' @ q"
      and fits: "int n < 2 ^ 63" "int (length p) + 16 < 2 ^ 63"
  shows "map (\<lambda>r. (oldLabel r, newLabel r, isArray r, arrayIndex r))
             (emittedReplacements unmarshal iterateNode inputYaml labelMap) =
           [(''ubuntu-latest'', ''step-ubuntu-24'', True, 0),
            (''windows-latest'', ''step-windows'', True, 1)] \<and>
         ReplaceRunnerLabels unmarshal iterateNode inputYaml labelMap =
           Inr (Join ((Split inputYaml newline)
                        [n := p @ ''[step-ubuntu-24, step-windows]'' @ q]) newline,
                True, None)"
proof -
  let ?r1 = "\<lparr>jobName = Value jobNameNode, oldLabel = ''ubuntu-latest'',
             newLabel = ''step-ubuntu-24'', lineNum = int n, columnNum = int (length p) + 1,
             isArray = True, arrayIndex = 0\<rparr>"
  let ?r2 = "\<lparr>jobName = Value jobNameNode, oldLabel = ''windows-latest'',
             newLabel = ''step-windows'', lineNum = int n, columnNum = int (length p) + 16,
             isArray = True, arrayIndex = 1\<rparr>"
  have nonempty: "\<not> Mapping.is_empty labelMap" by (rule lookup_Some_not_empty [OF map1])
  have job: "jobReplacements labelMap jobNameNode jobNode = [?r1, ?r2]"
    using runsOn first second map1 map2 fits by (simp add: jobReplacements_def int64_id)
  have "collectReplacements labelMap before [] = Inr []"
    using before by (rule collectReplacements_noop)
  moreover have "collectReplacements labelMap after [?r1, ?r2] = Inr [?r1, ?r2]"
    using after by (rule collectReplacements_noop)
  ultimately have collected: "collectReplacements labelMap (Content jobsNode) [] = Inr [?r1, ?r2]"
    using jobs before(1) job by (simp add: collectReplacements_append)
  with nonempty parse found
  have emitted: "emittedReplacements unmarshal iterateNode inputYaml labelMap = [?r1, ?r2]"
    by (simp add: emittedReplacements_def)
  have "applyReplacements [?r1, ?r2] (Split inputYaml newline, False) =
      Inr ((Split inputYaml newline)[n := p @ ''[step-ubuntu-24, step-windows]'' @ q], True)"
    using line(2,1) by (rule sequence_patch)
  with emitted show ?thesis by (simp add: ReplaceRunnerLabels_patch)
qed

lemma sequence_alone_example:
  "Mapping.lookup ubuntuWindowsMap ''ubuntu-latest'' = Some ''step-ubuntu-24'' \<and>
   Mapping.lookup ubuntuWindowsMap ''windows-latest'' = Some ''step-windows'' \<and>
   parserOf [(sequenceDoc, jobsTree sequenceJobs)] sequenceDoc = Inr (jobsTree sequenceJobs) \<and>
   IterateNode (jobsTree sequenceJobs) ''jobs'' ''!!map'' 0 = Some sequenceJobs \<and>
   Split sequenceDoc newline ! 2 = ''    runs-on: '' @ ''[ubuntu-latest, windows-latest]'' @ [] \<and>
   ReplaceRunnerLabels (parserOf [(sequenceDoc, jobsTree sequenceJobs)]) IterateNode sequenceDoc
     ubuntuWindowsMap = Inr (sequenceDocPatched, True, None)"
proof -
  let ?parser = "parserOf [(sequenceDoc, jobsTree sequenceJobs)]"
  let ?jobName = "strNode ''test'' 2 3"
  let ?first = "strNode ''ubuntu-latest'' 3 15" and ?second = "strNode ''windows-latest'' 3 30"
  let ?runsOn = "sequenceNode [?first, ?second] 3 14"
  let ?job = "mappingNode [strNode ''runs-on'' 3 5, ?runsOn] 3 5"
  let ?p = "''    runs-on: ''"
  have m1: "Mapping.lookup ubuntuWindowsMap ''ubuntu-latest'' = Some ''step-ubuntu-24''"
    and m2: "Mapping.lookup ubuntuWindowsMap ''windows-latest'' = Some ''step-windows''"
    by (simp_all add: map_defs)
  have p: "?parser sequenceDoc = Inr (jobsTree sequenceJobs)" by (simp add: parserOf_def)
  have i: "IterateNode (jobsTree sequenceJobs) ''jobs'' ''!!map'' 0 = Some sequenceJobs"
    by (simp add: tree_defs)
  have jobs: "Content sequenceJobs = [] @ ?jobName # ?job # []" by (simp add: tree_defs)
  have b: "even (length ([] :: Node list))"
    "\<forall>(otherName, other)\<in>set (entries []). jobIsNoop ubuntuWindowsMap other" by simp_all
  have r: "findRunsOnNode ?job = Some ?runsOn" "Kind ?runsOn = SequenceNode"
    "Content ?runsOn = [?first, ?second]"
    by (simp_all add: findRunsOnNode_def tree_defs)
  have f: "Value ?first = ''ubuntu-latest''" "Line ?first = int 2 + 1"
    "Column ?first = int (length ?p) + 2"
    by (simp_all add: tree_defs)
  have s: "Value ?second = ''windows-latest''" "Line ?second = int 2 + 1"
    "Column ?second = int (length ?p) + 17"
    by (simp_all add: tree_defs)
  have l: "2 < length (Split sequenceDoc newline)"
    "Split sequenceDoc newline ! 2 = ?p @ ''[ubuntu-latest, windows-latest]'' @ []"
    by (simp_all add: doc_defs Split.simps)
  have fits: "int 2 < 2 ^ 63" "int (length ?p) + 16 < 2 ^ 63" by simp_all
  have out: "Join ((Split sequenceDoc newline)[2 := ?p @ ''[step-ubuntu-24, step-windows]'' @ []])
      newline = sequenceDocPatched"
    by (simp add: doc_defs Split.simps)
  from sequence_alone_replaced [where unmarshal = ?parser and iterateNode = IterateNode
      and inputYaml = sequenceDoc and labelMap = ubuntuWindowsMap,
      OF m1 m2 p i jobs b b r f s l fits] out m1 m2 p i l(2)
  show ?thesis by simp
qed

text \<open>
  With the elements in the other order the first replacement shortens the line, the
  second label is no longer found from its column on, and a second application replaces
  it: the stale column also breaks idempotence, for a label map without chains.
\<close>

lemma stale_column_breaks_idempotence:
  "ReplaceRunnerLabels pairParser IterateNode (pairDoc ''windows-latest'' ''ubuntu-latest'')
     ubuntuWindowsMap = Inr (pairDoc ''step-windows'' ''ubuntu-latest'', True, None) \<and>
   ReplaceRunnerLabels pairParser IterateNode (pairDoc ''step-windows'' ''ubuntu-latest'')
     ubuntuWindowsMap = Inr (pairDoc ''step-windows'' ''step-ubuntu-24'', True, None)"
  by (simp add: run_defs tree_defs doc_defs map_defs)

section \<open>The claims\<close>

subsection \<open>C1\<close>

text \<open>
  Claim C1. When a descriptor's line index selects a line of the array, and its column lies
  within that line (otherwise the Go slice panics, see C9), the pass of the patcher for
  that descriptor returns, and the patched line is the characters of the line before the
  column, unchanged, followed by the rest of the line in which exactly the first occurrence
  of the old label, if there is one, is replaced by the new label. The part before the
  column is neither searched nor modified.
\<close>

theorem patched_line:
  assumes "0 \<le> lineNum r" and "lineNum r < int (length inputLines)"
      and "0 \<le> columnNum r"
      and "columnNum r \<le> int (length (inputLines ! nat (lineNum r)))"
  shows "\<exists>newLines suffix.
           applyReplacement r (inputLines, updated) = Inr (newLines, True) \<and>
           newLines ! nat (lineNum r) =
             take (nat (columnNum r)) (inputLines ! nat (lineNum r)) @ suffix \<and>
           replacesFirst (drop (nat (columnNum r)) (inputLines ! nat (lineNum r)))
             (oldLabel r) (newLabel r) suffix"
proof -
  let ?n = "nat (lineNum r)" and ?c = "nat (columnNum r)"
  let ?line = "inputLines ! ?n"
  let ?suffix = "Replace (drop ?c ?line) (oldLabel r) (newLabel r)"
  from assms have rng: "inRange inputLines r" by (simp add: inRange_def)
  from assms have n: "?n < length inputLines" by auto
  have "applyReplacement r (inputLines, updated) =
          Inr (inputLines[?n := take ?c ?line @ ?suffix], True)"
    by (rule applyReplacement_inRange [OF rng])
  moreover have "inputLines[?n := take ?c ?line @ ?suffix] ! ?n = take ?c ?line @ ?suffix"
    using n by simp
  moreover have "replacesFirst (drop ?c ?line) (oldLabel r) (newLabel r) ?suffix"
    by (rule Replace_replacesFirst)
  ultimately show ?thesis by blast
qed

text \<open>
  A job named \<open>ubuntu-latest\<close> that runs on \<open>ubuntu-latest\<close>: only the
  occurrence after the column is replaced.
\<close>

theorem patched_line_witness:
  "0 \<le> lineNum keyNamedLikeLabel \<and>
   lineNum keyNamedLikeLabel < int (length [''jobs:'', ''  ubuntu-latest: {runs-on: ubuntu-latest}'']) \<and>
   0 \<le> columnNum keyNamedLikeLabel \<and>
   columnNum keyNamedLikeLabel \<le>
     int (length ([''jobs:'', ''  ubuntu-latest: {runs-on: ubuntu-latest}''] !
                    nat (lineNum keyNamedLikeLabel))) \<and>
   applyReplacement keyNamedLikeLabel
       ([''jobs:'', ''  ubuntu-latest: {runs-on: ubuntu-latest}''], False) =
     Inr ([''jobs:'', ''  ubuntu-latest: {runs-on: step-ubuntu-24}''], True) \<and>
   replacesFirst ''ubuntu-latest}'' ''ubuntu-latest'' ''step-ubuntu-24'' ''step-ubuntu-24}''"
proof -
  let ?ls = "[''jobs:'', ''  ubuntu-latest: {runs-on: ubuntu-latest}'']"
  have h1: "0 \<le> lineNum keyNamedLikeLabel" by (simp add: keyNamedLikeLabel_def)
  have h2: "lineNum keyNamedLikeLabel < int (length ?ls)" by (simp add: keyNamedLikeLabel_def)
  have h3: "0 \<le> columnNum keyNamedLikeLabel" by (simp add: keyNamedLikeLabel_def)
  have h4: "columnNum keyNamedLikeLabel \<le> int (length (?ls ! nat (lineNum keyNamedLikeLabel)))"
    by (simp add: keyNamedLikeLabel_def)
  have run: "applyReplacement keyNamedLikeLabel (?ls, False) =
      Inr ([''jobs:'', ''  ubuntu-latest: {runs-on: step-ubuntu-24}''], True)"
    by (simp add: keyNamedLikeLabel_def applyReplacement_def Replace_def)
  from patched_line [OF h1 h2 h3 h4, of False] run
  have "replacesFirst ''ubuntu-latest}'' ''ubuntu-latest'' ''step-ubuntu-24'' ''step-ubuntu-24}''"
    by (auto simp: keyNamedLikeLabel_def)
  with h1 h2 h3 h4 run show ?thesis by blast
qed

subsection \<open>C2\<close>

text \<open>
  Claim C2, amended. When the operation returns without an error and no new label of the
  label map contains a newline character, the output has as many physical lines as the
  input, and every line whose 0-based index is not the line index of an emitted descriptor
  is identical to the input line of that index.
\<close>

theorem untargeted_lines_unchanged:
  assumes "ReplaceRunnerLabels unmarshal iterateNode inputYaml labelMap = Inr (output, changed, None)"
      and "\<forall>old new. Mapping.lookup labelMap old = Some new \<longrightarrow> newline \<notin> set new"
  shows "length (Split output newline) = length (Split inputYaml newline) \<and>
         (\<forall>i<length (Split inputYaml newline).
            int i \<notin> lineNum ` set (emittedReplacements unmarshal iterateNode inputYaml labelMap) \<longrightarrow>
            Split output newline ! i = Split inputYaml newline ! i)"
proof (cases "emittedReplacements unmarshal iterateNode inputYaml labelMap = []")
  case True
  from ReplaceRunnerLabels_unpatched [OF True assms(1)] show ?thesis by simp
next
  case False
  let ?rs = "emittedReplacements unmarshal iterateNode inputYaml labelMap"
  from ReplaceRunnerLabels_patched [OF False assms(1)] obtain newLines where
    run: "applyReplacements ?rs (Split inputYaml newline, False) = Inr (newLines, changed)" and
    out: "output = Join newLines newline" by blast
  from applyReplacements_frame [OF run] have
    len: "length newLines = length (Split inputYaml newline)" and
    same: "\<And>i. int i \<notin> lineNum ` set ?rs \<Longrightarrow> newLines ! i = Split inputYaml newline ! i"
    by auto
  have "\<forall>l\<in>set (Split inputYaml newline). newline \<notin> set l"
    by (simp add: Split_lines_no_sep)
  moreover have "\<forall>r\<in>set ?rs. newline \<notin> set (newLabel r)"
    using assms(2) emittedReplacements_lookup by blast
  ultimately have clean: "\<forall>l\<in>set newLines. newline \<notin> set l"
    by (rule applyReplacements_no_sep [OF run])
  from len have "newLines \<noteq> []" using Split_not_Nil [of inputYaml newline] by auto
  with clean out have "Split output newline = newLines" by (simp add: Split_Join)
  with len same show ?thesis by simp
qed

theorem untargeted_lines_unchanged_witness:
  "ReplaceRunnerLabels (parserOf [(sequenceDoc, jobsTree sequenceJobs)]) IterateNode sequenceDoc
     ubuntuWindowsMap = Inr (sequenceDocPatched, True, None) \<and>
   newline \<notin> set ''step-ubuntu-24'' \<and> newline \<notin> set ''step-windows'' \<and>
   map lineNum (emittedReplacements (parserOf [(sequenceDoc, jobsTree sequenceJobs)]) IterateNode
     sequenceDoc ubuntuWindowsMap) = [2, 2] \<and>
   length (Split sequenceDocPatched newline) = length (Split sequenceDoc newline) \<and>
   Split sequenceDocPatched newline ! 0 = Split sequenceDoc newline ! 0 \<and>
   Split sequenceDocPatched newline ! 1 = Split sequenceDoc newline ! 1 \<and>
   Split sequenceDocPatched newline ! 3 = Split sequenceDoc newline ! 3"
proof -
  let ?parser = "parserOf [(sequenceDoc, jobsTree sequenceJobs)]"
  have run: "ReplaceRunnerLabels ?parser IterateNode sequenceDoc ubuntuWindowsMap =
      Inr (sequenceDocPatched, True, None)"
    by (simp add: run_defs tree_defs doc_defs map_defs)
  have labels: "\<forall>old new. Mapping.lookup ubuntuWindowsMap old = Some new \<longrightarrow> newline \<notin> set new"
    by (auto simp: map_defs split: if_splits)
  have rs: "map lineNum (emittedReplacements ?parser IterateNode sequenceDoc ubuntuWindowsMap) = [2, 2]"
    by (simp add: run_defs tree_defs doc_defs map_defs)
  have len: "length (Split sequenceDoc newline) = 4" by (simp add: doc_defs Split.simps)
  from rs have "lineNum ` set (emittedReplacements ?parser IterateNode sequenceDoc ubuntuWindowsMap) = {2}"
    by (metis (no_types) list.set(1,2) set_map insert_absorb2)
  with untargeted_lines_unchanged [OF run labels] len rs run show ?thesis by simp
qed

text \<open>
  As stated for every label map, the claim fails: a new label that contains a newline
  character shifts the lines that follow it. The only descriptor is on line 2, and line 3
  of the output is not line 3 of the input.
\<close>

theorem untargeted_lines_counterexample:
  "ReplaceRunnerLabels (scalarParser newline) IterateNode (scalarDoc newline ''ubuntu-latest'')
     twoLineMap = Inr (twoLineOutput, True, None) \<and>
   map lineNum (emittedReplacements (scalarParser newline) IterateNode
     (scalarDoc newline ''ubuntu-latest'') twoLineMap) = [2] \<and>
   Split twoLineOutput newline ! 3 = ''ubuntu'' \<and>
   Split (scalarDoc newline ''ubuntu-latest'') newline ! 3 = ''    steps: []''"
  by (simp add: run_defs tree_defs doc_defs map_defs twoLineOutput_def)

subsection \<open>C3\<close>

text \<open>
  Claim C3. With a non-empty label map, when parsing fails the operation returns the empty
  string, not changed, and the parse error; no descriptor has been collected, so nothing
  is patched.
\<close>

theorem parse_failure:
  assumes "\<not> Mapping.is_empty labelMap" and "unmarshal inputYaml = Inl err"
  shows "ReplaceRunnerLabels unmarshal iterateNode inputYaml labelMap =
           Inr ('''', False, Some (Error (''unable to parse yaml: '' @ err))) \<and>
         emittedReplacements unmarshal iterateNode inputYaml labelMap = []"
  using assms by (simp add: ReplaceRunnerLabels_def emittedReplacements_def)

theorem parse_failure_witness:
  "\<not> Mapping.is_empty ubuntuMap \<and>
   parserOf [] ''on: [push'' = Inl ''yaml: did not find expected node content'' \<and>
   ReplaceRunnerLabels (parserOf []) IterateNode ''on: [push'' ubuntuMap =
     Inr ('''', False,
          Some (Error ''unable to parse yaml: yaml: did not find expected node content'')) \<and>
   emittedReplacements (parserOf []) IterateNode ''on: [push'' ubuntuMap = []"
proof -
  have h1: "\<not> Mapping.is_empty ubuntuMap" by (simp add: ubuntuMap_def)
  have h2: "parserOf [] ''on: [push'' = Inl ''yaml: did not find expected node content''"
    by (simp add: parserOf_def)
  from parse_failure [where unmarshal = "parserOf []" and inputYaml = "''on: [push''"
      and iterateNode = IterateNode, OF h1 h2] h1 h2
  show ?thesis by simp
qed

subsection \<open>C4\<close>

text \<open>
  Claim C4. With an empty label map the operation returns the input text unchanged, not
  changed, and no error, whatever the parser would make of the text: the parser is not
  consulted.
\<close>

theorem empty_label_map:
  "Mapping.is_empty labelMap \<Longrightarrow>
   ReplaceRunnerLabels unmarshal iterateNode inputYaml labelMap = Inr (inputYaml, False, None)"
  by (simp add: ReplaceRunnerLabels_def)

text \<open>An unterminated flow sequence, which no parser accepts.\<close>

theorem empty_label_map_witness:
  "Mapping.is_empty (Mapping.empty :: (string, string) mapping) \<and>
   parserOf [] ''on: [push'' = Inl ''yaml: did not find expected node content'' \<and>
   ReplaceRunnerLabels (parserOf []) IterateNode ''on: [push'' Mapping.empty =
     Inr (''on: [push'', False, None)"
  using empty_label_map [of Mapping.empty "parserOf []" IterateNode "''on: [push''"]
  by (simp add: parserOf_def)

subsection \<open>C5\<close>

text \<open>
  Claim C5. For a parseable input and a non-empty label map, the operation returns the
  input text unchanged, not changed, and no error when the search for the jobs node finds
  nothing (the jobs field is absent), or when every job under the jobs node has no
  \<open>runs-on\<close> field, or a \<open>runs-on\<close> value that is neither a scalar nor a sequence,
  or only labels that are no keys of the label map. In any document, the loop over the
  jobs passes over a job of that kind without adding a descriptor.
\<close>

theorem noop_conditions:
  assumes "\<not> Mapping.is_empty labelMap" and "unmarshal inputYaml = Inr t"
      and "iterateNode t ''jobs'' ''!!map'' 0 = None \<or>
           (\<exists>jobsNode. iterateNode t ''jobs'' ''!!map'' 0 = Some jobsNode \<and>
              even (length (Content jobsNode)) \<and>
              (\<forall>(jobNameNode, jobNode)\<in>set (entries (Content jobsNode)).
                 jobIsNoop labelMap jobNode))"
  shows "ReplaceRunnerLabels unmarshal iterateNode inputYaml labelMap =
           Inr (inputYaml, False, None) \<and>
         (\<forall>jobNameNode jobNode rest replacements.
            jobIsNoop labelMap jobNode \<longrightarrow>
            collectReplacements labelMap (jobNameNode # jobNode # rest) replacements =
              collectReplacements labelMap rest replacements)"
proof
  from assms(3)
  have "iterateNode t ''jobs'' ''!!map'' 0 = None \<or>
        (\<exists>jobsNode. iterateNode t ''jobs'' ''!!map'' 0 = Some jobsNode \<and>
           collectReplacements labelMap (Content jobsNode) [] = Inr [])"
    by (auto simp: collectReplacements_noop)
  with assms(1,2)
  show "ReplaceRunnerLabels unmarshal iterateNode inputYaml labelMap = Inr (inputYaml, False, None)"
    by (rule ReplaceRunnerLabels_no_descriptors [where unmarshal = unmarshal and t = t])
next
  show "\<forall>jobNameNode jobNode rest replacements.
          jobIsNoop labelMap jobNode \<longrightarrow>
          collectReplacements labelMap (jobNameNode # jobNode # rest) replacements =
            collectReplacements labelMap rest replacements"
    by (simp add: jobIsNoop_jobReplacements)
qed

text \<open>
  A workflow without jobs, and one whose four jobs show the three other conditions.
\<close>

theorem noop_conditions_witness:
  "\<not> Mapping.is_empty ubuntuMap \<and>
   parserOf [(noJobsDoc, noJobsTree), (mixedDoc, jobsTree mixedJobs)] noJobsDoc = Inr noJobsTree \<and>
   IterateNode noJobsTree ''jobs'' ''!!map'' 0 = None \<and>
   ReplaceRunnerLabels (parserOf [(noJobsDoc, noJobsTree), (mixedDoc, jobsTree mixedJobs)])
       IterateNode noJobsDoc ubuntuMap = Inr (noJobsDoc, False, None) \<and>
   parserOf [(noJobsDoc, noJobsTree), (mixedDoc, jobsTree mixedJobs)] mixedDoc =
     Inr (jobsTree mixedJobs) \<and>
   IterateNode (jobsTree mixedJobs) ''jobs'' ''!!map'' 0 = Some mixedJobs \<and>
   even (length (Content mixedJobs)) \<and>
   map (\<lambda>(jobNameNode, jobNode). (Value jobNameNode, jobIsNoop ubuntuMap jobNode))
     (entries (Content mixedJobs)) = [(''a'', True), (''b'', True), (''c'', True), (''d'', True)] \<and>
   ReplaceRunnerLabels (parserOf [(noJobsDoc, noJobsTree), (mixedDoc, jobsTree mixedJobs)])
       IterateNode mixedDoc ubuntuMap = Inr (mixedDoc, False, None)"
proof -
  let ?parser = "parserOf [(noJobsDoc, noJobsTree), (mixedDoc, jobsTree mixedJobs)]"
  have m: "\<not> Mapping.is_empty ubuntuMap" by (simp add: ubuntuMap_def)
  have p1: "?parser noJobsDoc = Inr noJobsTree" by (simp add: parserOf_def)
  have i1: "IterateNode noJobsTree ''jobs'' ''!!map'' 0 = None" by (simp add: tree_defs)
  have p2: "?parser mixedDoc = Inr (jobsTree mixedJobs)" by (simp add: parserOf_def doc_defs)
  have i2: "IterateNode (jobsTree mixedJobs) ''jobs'' ''!!map'' 0 = Some mixedJobs"
    by (simp add: tree_defs)
  have e2: "even (length (Content mixedJobs))" by (simp add: tree_defs)
  have n: "map (\<lambda>(jobNameNode, jobNode). (Value jobNameNode, jobIsNoop ubuntuMap jobNode))
      (entries (Content mixedJobs)) = [(''a'', True), (''b'', True), (''c'', True), (''d'', True)]"
    by (simp add: tree_defs jobIsNoop_def findRunsOnNode_def map_defs)
  have n2: "\<forall>(jobNameNode, jobNode)\<in>set (entries (Content mixedJobs)). jobIsNoop ubuntuMap jobNode"
    by (simp add: tree_defs jobIsNoop_def findRunsOnNode_def map_defs)
  from i1 have d1: "IterateNode noJobsTree ''jobs'' ''!!map'' 0 = None \<or>
     (\<exists>jobsNode. IterateNode noJobsTree ''jobs'' ''!!map'' 0 = Some jobsNode \<and>
        even (length (Content jobsNode)) \<and>
        (\<forall>(jobNameNode, jobNode)\<in>set (entries (Content jobsNode)). jobIsNoop ubuntuMap jobNode))"
    by simp
  from i2 e2 n2 have d2: "IterateNode (jobsTree mixedJobs) ''jobs'' ''!!map'' 0 = None \<or>
     (\<exists>jobsNode. IterateNode (jobsTree mixedJobs) ''jobs'' ''!!map'' 0 = Some jobsNode \<and>
        even (length (Content jobsNode)) \<and>
        (\<forall>(jobNameNode, jobNode)\<in>set (entries (Content jobsNode)). jobIsNoop ubuntuMap jobNode))"
    by blast
  from noop_conditions [where unmarshal = ?parser and inputYaml = noJobsDoc
        and iterateNode = IterateNode, OF m p1 d1, THEN conjunct1]
      noop_conditions [where unmarshal = ?parser and inputYaml = mixedDoc
        and iterateNode = IterateNode, OF m p2 d2, THEN conjunct1]
      m p1 i1 p2 i2 e2 n
  show ?thesis by blast
qed

subsection \<open>C6\<close>

text \<open>
  Claim C6. For a document with a job whose \<open>runs-on\<close> is the inline sequence
  \<open>[ubuntu-latest, windows-latest]\<close>, and the label map that sends
  \<open>ubuntu-latest\<close> to \<open>step-ubuntu-24\<close> and \<open>windows-latest\<close> to
  \<open>step-windows\<close>, the operation is to replace both elements and report a change.
  The code does so when nothing else is replaced earlier on the line of the sequence
  (\<open>sequence_alone_replaced\<close>), but not for every such document: the columns of the
  descriptors are those of the original text, and they are used on the line as earlier
  replacements have left it. In the flow-style workflow below, three descriptors are
  emitted for the one line; the first shortens it by two characters, after which neither
  element of the sequence is found from its column on. The operation returns the line
  with the sequence as it was, and changed.
\<close>

theorem sequence_case_failing_input:
  "Split flowDoc newline ! 0 =
     ''jobs: {a: {runs-on: windows-latest}, b: {runs-on: '' @
     ''[ubuntu-latest, windows-latest]'' @ ''}}'' \<and>
   map (\<lambda>r. (oldLabel r, newLabel r, lineNum r, columnNum r))
     (emittedReplacements (parserOf [(flowDoc, jobsTree flowJobs)]) IterateNode flowDoc
        ubuntuWindowsMap) =
     [(''windows-latest'', ''step-windows'', 0, 20),
      (''ubuntu-latest'', ''step-ubuntu-24'', 0, 51),
      (''windows-latest'', ''step-windows'', 0, 66)] \<and>
   ReplaceRunnerLabels (parserOf [(flowDoc, jobsTree flowJobs)]) IterateNode flowDoc
     ubuntuWindowsMap = Inr (flowOutput, True, None) \<and>
   Split flowOutput newline ! 0 =
     ''jobs: {a: {runs-on: step-windows}, b: {runs-on: '' @
     ''[ubuntu-latest, windows-latest]'' @ ''}}''"
  by (simp add: run_defs tree_defs doc_defs map_defs)

subsection \<open>C7\<close>




subsection \<open>C8\<close>

text \<open>
  Claim C8. When descriptors were collected and the line index of each is at or beyond the
  length of the line array (a line index is the parser's 1-based line number minus one),
  each is passed over, the flag stays false, and the returned text is the input text
  exactly: splitting at the newline characters and joining again restores it.
\<close>

theorem out_of_bounds_descriptors_skipped:
  assumes "emittedReplacements unmarshal iterateNode inputYaml labelMap \<noteq> []"
      and "\<forall>r\<in>set (emittedReplacements unmarshal iterateNode inputYaml labelMap).
             int (length (Split inputYaml newline)) \<le> lineNum r"
  shows "applyReplacements (emittedReplacements unmarshal iterateNode inputYaml labelMap)
           (Split inputYaml newline, False) = Inr (Split inputYaml newline, False) \<and>
         Join (Split inputYaml newline) newline = inputYaml \<and>
         ReplaceRunnerLabels unmarshal iterateNode inputYaml labelMap = Inr (inputYaml, False, None)"
  using assms
  by (simp add: ReplaceRunnerLabels_patch applyReplacements_skip Join_Split)

text \<open>
  A workflow whose lines end in carriage returns only: YAML takes them for line breaks,
  so the label is reported on line 3, while the text is a single line for the patcher.
\<close>

theorem out_of_bounds_descriptors_skipped_witness:
  "map lineNum (emittedReplacements (scalarParser (CHR 0x0D)) IterateNode
      (scalarDoc (CHR 0x0D) ''ubuntu-latest'') ubuntuMap) = [2] \<and>
   length (Split (scalarDoc (CHR 0x0D) ''ubuntu-latest'') newline) = 1 \<and>
   ReplaceRunnerLabels (scalarParser (CHR 0x0D)) IterateNode
      (scalarDoc (CHR 0x0D) ''ubuntu-latest'') ubuntuMap =
     Inr (scalarDoc (CHR 0x0D) ''ubuntu-latest'', False, None)"
proof -
  let ?doc = "scalarDoc (CHR 0x0D) ''ubuntu-latest''"
  let ?rs = "emittedReplacements (scalarParser (CHR 0x0D)) IterateNode ?doc ubuntuMap"
  have rs: "map lineNum ?rs = [2]"
    by (simp add: run_defs tree_defs doc_defs map_defs)
  have len: "length (Split ?doc newline) = 1"
    by (simp add: doc_defs Split.simps)
  from rs have ne: "?rs \<noteq> []" by auto
  from rs have "\<forall>l\<in>set (map lineNum ?rs). 1 \<le> l" by simp
  with len have far: "\<forall>r\<in>set ?rs. int (length (Split ?doc newline)) \<le> lineNum r" by simp
  from out_of_bounds_descriptors_skipped [OF ne far] rs len show ?thesis by simp
qed

subsection \<open>C9\<close>

text \<open>
  Claim C9. The patcher checks a descriptor's line index only. For a descriptor whose line
  index selects a line of the array, the pass returns exactly when the column is at least
  0 and at most the length of that line; otherwise it fails, and then with a slice bound
  out of range.
\<close>

theorem column_precondition:
  assumes "0 \<le> lineNum r" and "lineNum r < int (length inputLines)"
  shows "((\<exists>st. applyReplacement r (inputLines, updated) = Inr st) \<longleftrightarrow>
            0 \<le> columnNum r \<and> columnNum r \<le> int (length (inputLines ! nat (lineNum r)))) \<and>
         ((\<exists>p. applyReplacement r (inputLines, updated) = Inl p) \<longleftrightarrow>
            applyReplacement r (inputLines, updated) = Inl SliceBoundsOutOfRange)"
  using assms by (auto simp: applyReplacement_def Let_def)

text \<open>A column beyond the end of its line.\<close>

theorem column_precondition_witness:
  "0 \<le> lineNum staleColumn \<and> lineNum staleColumn < int (length [''jobs:'', ''  test:'', ''    runs-on: [u, w]'']) \<and>
   \<not> columnNum staleColumn \<le> int (length ([''jobs:'', ''  test:'', ''    runs-on: [u, w]''] ! nat (lineNum staleColumn))) \<and>
   applyReplacement staleColumn ([''jobs:'', ''  test:'', ''    runs-on: [u, w]''], True) = Inl SliceBoundsOutOfRange"
proof -
  have h1: "0 \<le> lineNum staleColumn" by (simp add: staleColumn_def)
  have h2: "lineNum staleColumn < int (length [''jobs:'', ''  test:'', ''    runs-on: [u, w]''])" by (simp add: staleColumn_def)
  have c: "\<not> columnNum staleColumn \<le> int (length ([''jobs:'', ''  test:'', ''    runs-on: [u, w]''] ! nat (lineNum staleColumn)))"
    by (simp add: staleColumn_def)
  from column_precondition [OF h1 h2, of True] c
  have "applyReplacement staleColumn ([''jobs:'', ''  test:'', ''    runs-on: [u, w]''], True) = Inl SliceBoundsOutOfRange"
    by (metis old.sum.exhaust)
  with h1 h2 c show ?thesis by blast
qed

subsection \<open>C10\<close>

text \<open>
  Claim C10. The flag does not say that the text differs. Whenever the operation returns
  and some emitted descriptor's line index selects a line of the array, changed is true;
  and when every emitted descriptor points into the line array and either maps a label to
  itself or finds no occurrence of its old label after its column, the operation returns
  the input text itself with changed true.
\<close>

theorem changed_without_difference:
  "(ReplaceRunnerLabels unmarshal iterateNode inputYaml labelMap = Inr (output, changed, None) \<and>
    (\<exists>r\<in>set (emittedReplacements unmarshal iterateNode inputYaml labelMap).
       0 \<le> lineNum r \<and> lineNum r < int (length (Split inputYaml newline)))
    \<longrightarrow> changed) \<and>
   (emittedReplacements unmarshal iterateNode inputYaml labelMap \<noteq> [] \<and>
    (\<forall>r\<in>set (emittedReplacements unmarshal iterateNode inputYaml labelMap).
       inRange (Split inputYaml newline) r \<and>
       (oldLabel r = newLabel r \<or>
        Index (drop (nat (columnNum r)) (Split inputYaml newline ! nat (lineNum r)))
          (oldLabel r) = None))
    \<longrightarrow> ReplaceRunnerLabels unmarshal iterateNode inputYaml labelMap = Inr (inputYaml, True, None))"
proof (intro conjI impI)
  let ?rs = "emittedReplacements unmarshal iterateNode inputYaml labelMap"
  assume a: "ReplaceRunnerLabels unmarshal iterateNode inputYaml labelMap = Inr (output, changed, None) \<and>
    (\<exists>r\<in>set ?rs. 0 \<le> lineNum r \<and> lineNum r < int (length (Split inputYaml newline)))"
  then have ne: "?rs \<noteq> []" by auto
  from ReplaceRunnerLabels_patched [OF ne] a obtain newLines where
    "applyReplacements ?rs (Split inputYaml newline, False) = Inr (newLines, changed)" by blast
  from applyReplacements_updated [OF this] a show changed by simp
next
  let ?rs = "emittedReplacements unmarshal iterateNode inputYaml labelMap"
  assume a: "?rs \<noteq> [] \<and>
    (\<forall>r\<in>set ?rs. inRange (Split inputYaml newline) r \<and>
       (oldLabel r = newLabel r \<or>
        Index (drop (nat (columnNum r)) (Split inputYaml newline ! nat (lineNum r)))
          (oldLabel r) = None))"
  then have "applyReplacements ?rs (Split inputYaml newline, False) =
      Inr (Split inputYaml newline, True)"
    by (intro applyReplacements_identity) auto
  with a show "ReplaceRunnerLabels unmarshal iterateNode inputYaml labelMap = Inr (inputYaml, True, None)"
    by (simp add: ReplaceRunnerLabels_patch Join_Split)
qed

text \<open>A label map that maps \<open>ubuntu-latest\<close> to itself.\<close>

theorem changed_without_difference_witness:
  "map (\<lambda>r. (oldLabel r, newLabel r, lineNum r, columnNum r))
     (emittedReplacements (scalarParser newline) IterateNode
        (scalarDoc newline ''ubuntu-latest'') identityMap) =
     [(''ubuntu-latest'', ''ubuntu-latest'', 2, 13)] \<and>
   length (Split (scalarDoc newline ''ubuntu-latest'') newline) = 5 \<and>
   length (Split (scalarDoc newline ''ubuntu-latest'') newline ! 2) = 26 \<and>
   ReplaceRunnerLabels (scalarParser newline) IterateNode
     (scalarDoc newline ''ubuntu-latest'') identityMap =
     Inr (scalarDoc newline ''ubuntu-latest'', True, None)"
proof -
  let ?doc = "scalarDoc newline ''ubuntu-latest''"
  let ?rs = "emittedReplacements (scalarParser newline) IterateNode ?doc identityMap"
  have rs: "map (\<lambda>r. (oldLabel r, newLabel r, lineNum r, columnNum r)) ?rs =
      [(''ubuntu-latest'', ''ubuntu-latest'', 2, 13)]"
    by (simp add: run_defs tree_defs doc_defs map_defs)
  have len: "length (Split ?doc newline) = 5" by (simp add: doc_defs Split.simps)
  have line: "length (Split ?doc newline ! 2) = 26" by (simp add: doc_defs Split.simps)
  from rs obtain r where r: "?rs = [r]" "oldLabel r = ''ubuntu-latest''"
    "newLabel r = ''ubuntu-latest''" "lineNum r = 2" "columnNum r = 13" by auto
  with len line have
    "?rs \<noteq> [] \<and> (\<forall>r\<in>set ?rs. inRange (Split ?doc newline) r \<and>
       (oldLabel r = newLabel r \<or>
        Index (drop (nat (columnNum r)) (Split ?doc newline ! nat (lineNum r))) (oldLabel r) = None))"
    by (simp add: inRange_def)
  with changed_without_difference [of "scalarParser newline" IterateNode ?doc identityMap]
  have "ReplaceRunnerLabels (scalarParser newline) IterateNode ?doc identityMap =
      Inr (?doc, True, None)" by blast
  with rs len line show ?thesis by blast
qed

end
